theory Spec2Isabelle
  imports Main
begin

section \<open>Bot-noise classifier (src/twitter-known-bots.ts)\<close>

text \<open>
  Twitter handles are drawn from the ASCII alphabet \<^verbatim>\<open>[A-Za-z0-9_]\<close>; a JavaScript string
  is modelled as a \<^typ>\<open>string\<close>, and \<^verbatim>\<open>String.prototype.toLowerCase\<close> as the map that
  sends the letters \<^verbatim>\<open>A\<close>..\<^verbatim>\<open>Z\<close> (codes 65..90) to \<^verbatim>\<open>a\<close>..\<^verbatim>\<open>z\<close> and leaves
  every other character alone.
\<close>

definition toLowerChar :: "char \<Rightarrow> char" where
  "toLowerChar c =
     (let n = (of_char c :: nat) in if 65 \<le> n \<and> n \<le> 90 then char_of (n + 32) else c)"

definition toLowerCase :: "string \<Rightarrow> string" where
  "toLowerCase s = map toLowerChar s"

text \<open>
  \<^verbatim>\<open>/bot$/.test(username)\<close>: the pattern has no flags, so \<^verbatim>\<open>$\<close> matches at the end of
  the input only, and the test succeeds exactly when the last characters of the input
  are the literal.
\<close>

definition regexTestEnd :: "string \<Rightarrow> string \<Rightarrow> bool" where
  "regexTestEnd lit s =
     (length lit \<le> length s \<and> drop (length s - length lit) s = lit)"

text \<open>
  \<^verbatim>\<open>export const twitterKnownBots = new Set<string>([...].map((s) => s.toLowerCase()))\<close>
\<close>

definition twitterKnownBots :: "string set" where
  "twitterKnownBots = set (map toLowerCase
     [''threadreaderapp'', ''SaveToNotion'', ''ChatGPTBot'', ''AskDexa'', ''PingThread'',
      ''readwiseio'', ''threader'', ''unrollthread'', ''ReplyGPT'', ''ChatSonicAI'',
      ''dustyplaylist'', ''pikaso_me'', ''RemindMe_OfThis'', ''SaveMyVideo'',
      ''QuotedReplies'', ''poet_this'', ''MakeItAQuote'', ''colorize_bot'',
      ''DearAssistant'', ''WhatTheFare'', ''wayback_exe'', ''TayTweets'',
      ''deepquestionbot'', ''MoMARobot'', ''phasechase'', ''poem_exe'', ''desires_exe'',
      ''HundredZeros'', ''dscovr_epic'', ''MagicRealismBot'', ''MuseumBot'',
      ''TwoHeadlines'', ''pentametron'', ''earthquakebot'', ''_grammar_'', ''netflix_bot'',
      ''redbox_bot'', ''nicetipsbot'', ''the_ephemerides'', ''year_progress'',
      ''IFindPlanets'', ''emojimashupbot'', ''translatorbot'', ''MetaculusAlert'',
      ''hashtagify'', ''GooogleFactss'', ''Timer'', ''DownloaderBot'', ''QuakesToday'',
      ''Savevidbot'', ''Growthoid'', ''greatartbot'', ''Stupidcounter'', ''everyword'',
      ''fuckeveryword'', ''big_ben_clock'', ''LetKanyeFinish'', ''RedScareBot'',
      ''EnjoyTheFilm'', ''DBZNappa'', ''Exosaurs'', ''exoslash'', ''BloombrgNewsish'',
      ''AutoCharts'', ''HottestStartups'', ''metaphorminute'', ''unchartedatlas'',
      ''YesYoureRacist'', ''YesYoureSexist'', ''accidental575'', ''EarthRoverBot'',
      ''happened_today'', ''anagramatron'', ''pentametron'', ''stealthmountain'',
      ''SortingBot'', ''flycolony'', ''chernobylstatus'', ''blitz_bot_test'',
      ''unescobot'', ''wahlumfrageBot'', ''NeonaziWallets'', ''LatencyAt'',
      ''teololstoy'', ''trumpretruth'', ''UnrollHelper'', ''bot4thread''])"

definition isKnownTwitterBot :: "string \<Rightarrow> bool" where
  "isKnownTwitterBot username = (toLowerCase username \<in> twitterKnownBots)"

definition isLikelyTwitterBot :: "string \<Rightarrow> bool" where
  "isLikelyTwitterBot username0 =
     (let username = toLowerCase username0 in
      if isKnownTwitterBot username then True
      else if regexTestEnd ''bot'' username then True
      else if regexTestEnd ''gpt'' username then True
      else if regexTestEnd ''status'' username then True
      else False)"


section \<open>Shared data model (src/types.ts)\<close>

text \<open>
  Identifiers of tweets, users and messages are the platform's numeric strings
  (\<^verbatim>\<open>'1760384146004996333'\<close>). They are modelled by their numeric value, a \<^typ>\<open>nat\<close>;
  an absent identifier (\<^verbatim>\<open>undefined\<close>) is \<open>None\<close>. A numeric string is never empty,
  so every present identifier is truthy in JavaScript (also \<^verbatim>\<open>'0'\<close>), and a test
  such as \<^verbatim>\<open>if (!message.parentMessageId)\<close> is a test for \<open>None\<close>.
\<close>

type_synonym twitter_id = nat

text \<open>
  \<^verbatim>\<open>Tweet\<close> and \<^verbatim>\<open>TwitterUser\<close> are types of the Twitter SDK; the fields below are the
  ones the modelled functions read (\<^verbatim>\<open>id\<close>, \<^verbatim>\<open>text\<close>, \<^verbatim>\<open>referenced_tweets\<close> with
  the \<^verbatim>\<open>type\<close> and \<^verbatim>\<open>id\<close> of each reference; \<^verbatim>\<open>id\<close> and \<^verbatim>\<open>username\<close> of a user).
\<close>

record ReferencedTweet =
  refType :: string
  refId :: twitter_id

record Tweet =
  tweetId :: twitter_id
  tweetText :: string
  referenced_tweets :: "ReferencedTweet list option"

record TwitterUser =
  userId :: twitter_id
  userUsername :: string

text \<open>
  \<^verbatim>\<open>interface Message\<close>: the fields \<^verbatim>\<open>resolveMessageThread\<close> reads. The optional string
  fields \<^verbatim>\<open>response\<close> and \<^verbatim>\<open>error\<close> may be absent or empty; both are falsy.
\<close>

record Message =
  messageId :: twitter_id
  prompt :: string
  promptTweetId :: twitter_id
  response :: "string option"
  parentMessageId :: "twitter_id option"
  error :: "string option"

text \<open>JavaScript truthiness of an optional string: present and not empty.\<close>

definition truthy :: "string option \<Rightarrow> bool" where
  "truthy v = (case v of None \<Rightarrow> False | Some s \<Rightarrow> s \<noteq> [])"

text \<open>
  \<^verbatim>\<open>type Context\<close>: the mutable cursor and the run-time flags the modelled code reads.
\<close>

record Context =
  ctxSinceMentionId :: "twitter_id option"
  dryRun :: bool
  noCache :: bool
  earlyExit :: bool
  resolveAllMentions :: bool
  debugTweetIds :: "twitter_id list"

text \<open>\<^verbatim>\<open>type TweetMentionFetchResult\<close>; the two records are maps from identifier to entity.\<close>

record TweetMentionFetchResult =
  mentions :: "Tweet list"
  users :: "twitter_id \<rightharpoonup> TwitterUser"
  tweets :: "twitter_id \<rightharpoonup> Tweet"
  sinceMentionId :: "twitter_id option"

text \<open>\<^verbatim>\<open>type TweetMentionBatch\<close>: the fields the control loop reads.\<close>

record TweetMentionBatch =
  batchSinceMentionId :: "twitter_id option"
  hasNetworkError :: bool
  hasTwitterRateLimitError :: bool
  hasTwitterAuthError :: bool

text \<open>
  Modelled from the spec: \<^verbatim>\<open>maxTwitterId\<close> of \<^verbatim>\<open>twitter-utils.ts\<close>, which is not among
  the sources. The spec calls the cursor \<open>platform-native, numeric-string ordered\<close> and
  the persisted value \<open>the maximum\<close> of its arguments: the larger of two identifiers in
  numeric order, and the other argument when one is absent.
\<close>

definition maxTwitterId :: "twitter_id option \<Rightarrow> twitter_id option \<Rightarrow> twitter_id option" where
  "maxTwitterId tweetIdA tweetIdB =
     (case tweetIdA of
        None \<Rightarrow> tweetIdB
      | Some a \<Rightarrow> (case tweetIdB of None \<Rightarrow> Some a | Some b \<Rightarrow> Some (max a b)))"


section \<open>Thread resolver (resolveMessageThread)\<close>

text \<open>
  \<^verbatim>\<open>Msg.user(content)\<close> and \<^verbatim>\<open>Msg.assistant(content)\<close> of the chat-completion format.
\<close>

datatype ChatMsg = MsgUser string | MsgAssistant string

text \<open>
  The source compares message objects by identity (\<^verbatim>\<open>m === leafMessage\<close>), so the model
  pairs every message with the index of its allocation: the argument of the call is
  object 0, and each record returned by \<^verbatim>\<open>db.messages.get\<close> is a fresh object, numbered
  by its position in \<^verbatim>\<open>messages\<close>. Two objects are identical when their indices are.
\<close>

type_synonym 'a obj = "nat \<times> 'a"

text \<open>
  The first loop, \<^verbatim>\<open>do { if (!message.parentMessageId) break; ... } while (true)\<close>.
  \<open>dbMessages\<close> is the message store read by \<^verbatim>\<open>db.messages.get\<close>. The loop does not
  terminate on a cyclic store, so it takes fuel: \<open>None\<close> is \<open>has not returned yet\<close>.
  It returns the last message reached and the list \<^verbatim>\<open>messages\<close>.
\<close>

fun resolveParentMessages ::
  "nat \<Rightarrow> (twitter_id \<rightharpoonup> Message) \<Rightarrow> Message obj \<Rightarrow> Message obj list
     \<Rightarrow> (Message obj \<times> Message obj list) option" where
  "resolveParentMessages 0 dbMessages message messages = None"
| "resolveParentMessages (Suc fuel) dbMessages message messages =
     (case parentMessageId (snd message) of
        None \<Rightarrow> Some (message, messages)
      | Some pid \<Rightarrow>
          (case dbMessages pid of
             None \<Rightarrow> Some (message, messages)
           | Some parentMessage \<Rightarrow>
               resolveParentMessages fuel dbMessages (length messages, parentMessage)
                 (messages @ [(length messages, parentMessage)])))"

text \<open>
  \<^verbatim>\<open>tweet.referenced_tweets?.find((t) => t.type === 'replied_to')\<close>: the first reference
  of that type, if the field is present and has one.
\<close>

definition repliedToTweetRef :: "Tweet \<Rightarrow> ReferencedTweet option" where
  "repliedToTweetRef tweet =
     (case referenced_tweets tweet of
        None \<Rightarrow> None
      | Some refs \<Rightarrow> find (\<lambda>t. refType t = ''replied_to'') refs)"

text \<open>
  The second loop, \<^verbatim>\<open>while (tweet) { ... }\<close>, entered with a tweet that was found.
  \<open>tryGetTweetById\<close> is the lookup \<^verbatim>\<open>db.tryGetTweetById(id, ctx, { force: true })\<close>, which
  answers \<^verbatim>\<open>undefined\<close> for a tweet it cannot fetch.
\<close>

fun resolvePrevTweets ::
  "nat \<Rightarrow> (twitter_id \<rightharpoonup> Tweet) \<Rightarrow> Tweet \<Rightarrow> Tweet list \<Rightarrow> Tweet list option" where
  "resolvePrevTweets 0 tryGetTweetById tweet prevTweetsInThread = None"
| "resolvePrevTweets (Suc fuel) tryGetTweetById tweet prevTweetsInThread =
     (case repliedToTweetRef tweet of
        None \<Rightarrow> Some prevTweetsInThread
      | Some r \<Rightarrow>
          (case tryGetTweetById (refId r) of
             None \<Rightarrow> Some prevTweetsInThread
           | Some repliedToTweet \<Rightarrow>
               resolvePrevTweets fuel tryGetTweetById repliedToTweet
                 (prevTweetsInThread @ [repliedToTweet])))"

text \<open>\<^verbatim>\<open>[...].filter(Boolean)\<close> on a list whose entries are a message or \<^verbatim>\<open>null\<close>.\<close>

definition filterBoolean :: "'a option list \<Rightarrow> 'a list" where
  "filterBoolean xs = concat (map (\<lambda>x. case x of None \<Rightarrow> [] | Some v \<Rightarrow> [v]) xs)"

text \<open>
  The body of the \<^verbatim>\<open>flatMap\<close>: the prompt as a user entry, then the response as an
  assistant entry when \<^verbatim>\<open>message.response && message !== leafMessage\<close>.
\<close>

definition chatMessagesForBotMessage :: "Message obj \<Rightarrow> Message obj \<Rightarrow> ChatMsg list" where
  "chatMessagesForBotMessage leafMessage message =
     filterBoolean
       [Some (MsgUser (prompt (snd message))),
        (case response (snd message) of
           None \<Rightarrow> None
         | Some r \<Rightarrow>
             if r \<noteq> [] \<and> fst message \<noteq> fst leafMessage then Some (MsgAssistant r) else None)]"

definition resolveMessageThread ::
  "nat \<Rightarrow> (twitter_id \<rightharpoonup> Message) \<Rightarrow> (twitter_id \<rightharpoonup> Tweet) \<Rightarrow> Message \<Rightarrow> bool
     \<Rightarrow> ChatMsg list option" where
  "resolveMessageThread fuel dbMessages tryGetTweetById message0 resolvePrevTweetsInThread =
     (let leafMessage = (0, message0) in
      case resolveParentMessages fuel dbMessages leafMessage [leafMessage] of
        None \<Rightarrow> None
      | Some (message, messages) \<Rightarrow>
          (case (if resolvePrevTweetsInThread
                 then (case tryGetTweetById (promptTweetId (snd message)) of
                         None \<Rightarrow> Some []
                       | Some tweet \<Rightarrow> resolvePrevTweets fuel tryGetTweetById tweet [])
                 else Some []) of
             None \<Rightarrow> None
           | Some prevTweetsInThread \<Rightarrow>
               (let messages1 = rev messages;
                    prevTweets1 = rev prevTweetsInThread;
                    messages2 = filter (\<lambda>m. \<not> truthy (error (snd m)) \<or> fst m = fst leafMessage)
                                  messages1;
                    chatMessagesForPrevTweets = map (\<lambda>tweet. MsgUser (tweetText tweet)) prevTweets1;
                    chatMessagesForBotMessages =
                      concat (map (chatMessagesForBotMessage leafMessage) messages2)
                in Some (chatMessagesForPrevTweets @ chatMessagesForBotMessages))))"


section \<open>Mention fetcher (getTwitterUserIdMentions)\<close>

text \<open>
  One page of the paginated query: \<^verbatim>\<open>page.data\<close>, \<^verbatim>\<open>page.includes.users\<close> and
  \<^verbatim>\<open>page.includes.tweets\<close>. The source guards each with \<^verbatim>\<open>?.length\<close>, under which an
  absent array and an empty one behave alike, so each is a list.
\<close>

record Page =
  pageData :: "Tweet list"
  includesUsers :: "TwitterUser list"
  includesTweets :: "Tweet list"

text \<open>
  Modelled from the spec: the error classes of \<^verbatim>\<open>bot-error.ts\<close>, which is not among the
  sources. The spec names rate-limit, auth, network and unknown; \<^verbatim>\<open>'twitter:unknown'\<close> is
  the type the fetcher itself throws. A \<^verbatim>\<open>BotError\<close> carries its type and its cause.
\<close>

datatype BotErrorType = twitter_rate_limit | twitter_auth | network | twitter_unknown

datatype 'e BotError = BotError BotErrorType 'e

text \<open>
  What the call does to the outside world, in order: the cache read
  \<^verbatim>\<open>db.getCachedUserMentionsForUserSince\<close>, each remote query \<^verbatim>\<open>twitter.usersIdMentions\<close>
  with its \<^verbatim>\<open>since_id\<close>, the cache write \<^verbatim>\<open>db.upsertTweetMentionsForUserId\<close>, and the
  final \<^verbatim>\<open>db.upsertTweets\<close> and \<^verbatim>\<open>db.upsertTwitterUsers\<close> (of the values of the two
  maps). Logging and the throttling delays are left out.
\<close>

datatype Effect =
    GetCachedUserMentionsForUserSince twitter_id twitter_id
  | UsersIdMentions twitter_id "twitter_id option"
  | UpsertTweetMentionsForUserId twitter_id "Tweet list"
  | UpsertTweets "twitter_id \<rightharpoonup> Tweet"
  | UpsertTwitterUsers "twitter_id \<rightharpoonup> TwitterUser"

datatype 'e FetchOutcome = Returned TweetMentionFetchResult | Thrown "'e BotError"

text \<open>
  The state of one paginated query: \<^verbatim>\<open>result\<close>, \<^verbatim>\<open>numMentionsInQuery\<close> and the effects
  so far (\<^verbatim>\<open>numPagesInQuery\<close> is only logged).
\<close>

type_synonym FetchState = "TweetMentionFetchResult \<times> nat \<times> Effect list"

text \<open>
  The awaited cache write \<^verbatim>\<open>db.upsertTweetMentionsForUserId(userId, page.data)\<close> (of
  \<^verbatim>\<open>db.ts\<close>, not among the sources), as a parameter: \<open>None\<close> when the write resolves,
  \<open>Some err\<close> when it rejects with \<open>err\<close>. The call stands inside the \<^verbatim>\<open>try\<close>, so its
  rejection reaches the same \<^verbatim>\<open>catch\<close> as an error of the remote query.
\<close>

type_synonym 'e upsert = "twitter_id \<Rightarrow> Tweet list \<Rightarrow> 'e option"

text \<open>
  The two \<^verbatim>\<open>if (page.includes?. ... ?.length)\<close> blocks at the end of the loop body.
\<close>

definition mergeIncludes :: "Page \<Rightarrow> FetchState \<Rightarrow> FetchState" where
  "mergeIncludes page st =
     (case st of (result, numMentionsInQuery, effects) \<Rightarrow>
        (let result2 =
               (if includesUsers page \<noteq> [] then
                  result\<lparr>users := foldl (\<lambda>m user. m(userId user \<mapsto> user))
                                     (users result) (includesUsers page)\<rparr>
                else result);
             result3 =
               (if includesTweets page \<noteq> [] then
                  result2\<lparr>tweets := foldl (\<lambda>m tweet. m(tweetId tweet \<mapsto> tweet))
                                       (tweets result2) (includesTweets page)\<rparr>
                else result2)
         in (result3, numMentionsInQuery, effects)))"

text \<open>
  The body of \<^verbatim>\<open>for await (const page of mentionsQuery)\<close>, in the order of the source:
  the mentions of the page are counted and appended; unless \<^verbatim>\<open>ctx.noCache\<close>, the cache
  write is awaited; then \<^verbatim>\<open>sinceMentionId\<close> is raised over the page, and the includes are
  merged. When the cache write rejects, the body ends there, with the mentions appended
  and \<^verbatim>\<open>sinceMentionId\<close> not raised; the second component is the error thrown.
\<close>

definition processPage ::
  "Context \<Rightarrow> 'e upsert \<Rightarrow> twitter_id \<Rightarrow> Page \<Rightarrow> FetchState \<Rightarrow> FetchState \<times> 'e option" where
  "processPage ctx upsertTweetMentionsForUserId uid page st =
     (case st of (result, numMentionsInQuery, effects) \<Rightarrow>
        if pageData page \<noteq> [] then
          (let numMentionsInQuery1 = numMentionsInQuery + length (pageData page);
               result1 = result\<lparr>mentions := mentions result @ pageData page\<rparr>;
               effects1 = (if \<not> noCache ctx
                           then effects @ [UpsertTweetMentionsForUserId uid (pageData page)]
                           else effects);
               rejected = (if \<not> noCache ctx
                           then upsertTweetMentionsForUserId uid (pageData page)
                           else None)
           in case rejected of
                Some err \<Rightarrow> ((result1, numMentionsInQuery1, effects1), Some err)
              | None \<Rightarrow>
                  (mergeIncludes page
                     (result1\<lparr>sinceMentionId :=
                                foldl (\<lambda>s mention. maxTwitterId s (Some (tweetId mention)))
                                  (sinceMentionId result1) (pageData page)\<rparr>,
                      numMentionsInQuery1, effects1),
                   None))
        else (mergeIncludes page (result, numMentionsInQuery, effects), None))"

text \<open>The loop over the pages: it ends with the first page whose body throws.\<close>

fun forAwaitPages ::
  "Context \<Rightarrow> 'e upsert \<Rightarrow> twitter_id \<Rightarrow> Page list \<Rightarrow> FetchState \<Rightarrow> FetchState \<times> 'e option" where
  "forAwaitPages ctx upsertMentions uid [] st = (st, None)"
| "forAwaitPages ctx upsertMentions uid (page # pages) st =
     (case processPage ctx upsertMentions uid page st of
        (st', Some err) \<Rightarrow> (st', Some err)
      | (st', None) \<Rightarrow> forAwaitPages ctx upsertMentions uid pages st')"

text \<open>The two upserts after the loop, and \<^verbatim>\<open>return result\<close>.\<close>

definition flushAndReturn ::
  "TweetMentionFetchResult \<Rightarrow> Effect list \<Rightarrow> 'e FetchOutcome \<times> Effect list" where
  "flushAndReturn result effects =
     (Returned result, effects @ [UpsertTweets (tweets result), UpsertTwitterUsers (users result)])"

text \<open>
  The remote feed. The \<open>k\<close>-th query of a call, for a user and a \<^verbatim>\<open>since_id\<close>, yields some
  pages and then either ends or throws an error of type \<open>'e\<close>; pages consumed before the
  error have taken effect when the \<^verbatim>\<open>catch\<close> runs. The awaited
  \<^verbatim>\<open>twitter.usersIdMentionsThrottleWorkaround()\<close>, before the query and after the body of
  each page, stands in the same \<^verbatim>\<open>try\<close>: a rejection of it acts on the result as an
  error of the feed after the pages consumed so far.
\<close>

type_synonym 'e remote = "nat \<Rightarrow> twitter_id \<Rightarrow> twitter_id option \<Rightarrow> Page list \<times> 'e option"

text \<open>
  The outer \<^verbatim>\<open>do { try { ... } catch (err) { ... } } while (true)\<close>. It runs for ever when
  every query of an exhaustive run yields five mentions or more, so it takes fuel.
  The error the \<^verbatim>\<open>catch\<close> sees is the rejection of a cache write, if one occurred while
  the pages were consumed, and the error of the remote query otherwise.
  \<^verbatim>\<open>handleKnownTwitterErrors\<close> (of \<^verbatim>\<open>twitter-utils.ts\<close>, not among the sources) is a
  parameter: \<open>Some t\<close> when it throws a \<^verbatim>\<open>BotError\<close> of type \<open>t\<close> for the error, \<open>None\<close>
  when it returns and the fetcher throws \<^verbatim>\<open>'twitter:unknown'\<close>.
\<close>

fun fetchLoop ::
  "nat \<Rightarrow> Context \<Rightarrow> ('e \<Rightarrow> BotErrorType option) \<Rightarrow> 'e upsert \<Rightarrow> 'e remote \<Rightarrow> twitter_id
     \<Rightarrow> nat \<Rightarrow> TweetMentionFetchResult \<Rightarrow> Effect list
     \<Rightarrow> ('e FetchOutcome \<times> Effect list) option" where
  "fetchLoop 0 ctx handleKnownTwitterErrors upsertMentions remote uid k result effects = None"
| "fetchLoop (Suc fuel) ctx handleKnownTwitterErrors upsertMentions remote uid k result effects =
     (case remote k uid (sinceMentionId result) of (pages, failure) \<Rightarrow>
        (case forAwaitPages ctx upsertMentions uid pages
                (result, 0, effects @ [UsersIdMentions uid (sinceMentionId result)]) of
           ((result', numMentionsInQuery, effects'), rejected) \<Rightarrow>
             (case (case rejected of Some err \<Rightarrow> Some err | None \<Rightarrow> failure) of
                None \<Rightarrow>
                  if numMentionsInQuery < 5 \<or> \<not> resolveAllMentions ctx
                  then Some (flushAndReturn result' effects')
                  else fetchLoop fuel ctx handleKnownTwitterErrors upsertMentions remote uid
                         (Suc k) result' effects'
              | Some err \<Rightarrow>
                  if mentions result' \<noteq> []
                  then Some (flushAndReturn result' effects')
                  else Some (Thrown (BotError
                               (case handleKnownTwitterErrors err of
                                  Some t \<Rightarrow> t
                                | None \<Rightarrow> twitter_unknown) err),
                             effects'))))"

text \<open>
  The cached mention pages, \<^verbatim>\<open>db.getCachedUserMentionsForUserSince({ userId, sinceMentionId })\<close>
  (of \<^verbatim>\<open>db.ts\<close>, not among the sources), as a parameter.
\<close>

type_synonym cache = "twitter_id \<Rightarrow> twitter_id \<Rightarrow> TweetMentionFetchResult option"

text \<open>
  The part of the function before the loop: the initial \<^verbatim>\<open>result\<close> and, unless
  \<^verbatim>\<open>ctx.noCache\<close>, the cache read under the key \<^verbatim>\<open>originalSinceMentionId || '0'\<close>.
\<close>

definition seedFromCache ::
  "Context \<Rightarrow> cache \<Rightarrow> twitter_id \<Rightarrow> twitter_id option
     \<Rightarrow> TweetMentionFetchResult \<times> Effect list" where
  "seedFromCache ctx getCachedUserMentionsForUserSince uid originalSinceMentionId =
     (let result = \<lparr>mentions = [], users = Map.empty, tweets = Map.empty,
                     sinceMentionId = originalSinceMentionId\<rparr>
      in if \<not> noCache ctx then
           (let key = (case originalSinceMentionId of None \<Rightarrow> 0 | Some s \<Rightarrow> s);
                effects = [GetCachedUserMentionsForUserSince uid key]
            in case getCachedUserMentionsForUserSince uid key of
                 None \<Rightarrow> (result, effects)
               | Some cachedResult \<Rightarrow>
                   if length (mentions cachedResult) > 0 then
                     (result\<lparr>mentions := mentions result @ mentions cachedResult,
                             users := users cachedResult ++ users result,
                             tweets := tweets cachedResult ++ tweets result,
                             sinceMentionId := maxTwitterId (sinceMentionId result)
                                                 (sinceMentionId cachedResult)\<rparr>,
                      effects)
                   else (result, effects))
         else (result, []))"

text \<open>
  The whole function. The cache read and the two final upserts stand outside the
  \<^verbatim>\<open>try\<close>; they are taken to resolve.
\<close>

definition getTwitterUserIdMentions ::
  "nat \<Rightarrow> Context \<Rightarrow> ('e \<Rightarrow> BotErrorType option) \<Rightarrow> cache \<Rightarrow> 'e upsert \<Rightarrow> 'e remote
     \<Rightarrow> twitter_id \<Rightarrow> twitter_id option \<Rightarrow> ('e FetchOutcome \<times> Effect list) option" where
  "getTwitterUserIdMentions fuel ctx handleKnownTwitterErrors getCached upsertMentions remote
     uid since_id =
     (case seedFromCache ctx getCached uid since_id of (result, effects) \<Rightarrow>
        fetchLoop fuel ctx handleKnownTwitterErrors upsertMentions remote uid 0 result effects)"


section \<open>Control loop (main)\<close>

text \<open>
  What \<^verbatim>\<open>respondToNewMentions(ctx)\<close> (not among the sources) hands to one iteration: a
  batch, or an exception that the \<^verbatim>\<open>catch\<close> of the loop handles.
\<close>

datatype BatchOutcome = BatchReturned TweetMentionBatch | BatchThrew

datatype MainEffect =
    GetSinceMentionId
  | SetSinceMentionId twitter_id
  | Delay nat
  | RefreshTwitterAuth

text \<open>
  The state of the loop: the context, the cursor in durable storage (what
  \<^verbatim>\<open>db.getSinceMentionId\<close> reads and \<^verbatim>\<open>db.setSinceMentionId\<close> writes) and the effects so far.
\<close>

record MainState =
  ctx :: Context
  persistedSinceMentionId :: "twitter_id option"
  mainEffects :: "MainEffect list"

text \<open>\<^verbatim>\<open>if (batch.sinceMentionId && !ctx.debugTweetIds?.length) { ... }\<close>\<close>

definition advanceCursor :: "TweetMentionBatch \<Rightarrow> MainState \<Rightarrow> MainState" where
  "advanceCursor batch st =
     (if batchSinceMentionId batch \<noteq> None \<and> debugTweetIds (ctx st) = [] then
        (let st1 = st\<lparr>ctx := (ctx st)\<lparr>ctxSinceMentionId :=
                      maxTwitterId (ctxSinceMentionId (ctx st)) (batchSinceMentionId batch)\<rparr>\<rparr>
         in if \<not> resolveAllMentions (ctx st1) then
              (let recentSinceMentionId = persistedSinceMentionId st1;
                   st2 = st1\<lparr>ctx := (ctx st1)\<lparr>ctxSinceMentionId :=
                            maxTwitterId (ctxSinceMentionId (ctx st1)) recentSinceMentionId\<rparr>,
                          mainEffects := mainEffects st1 @ [GetSinceMentionId]\<rparr>
               in case ctxSinceMentionId (ctx st2) of
                    None \<Rightarrow> st2
                  | Some v \<Rightarrow>
                      if \<not> dryRun (ctx st2)
                      then st2\<lparr>persistedSinceMentionId := Some v,
                               mainEffects := mainEffects st2 @ [SetSinceMentionId v]\<rparr>
                      else st2)
            else st1)
      else st)"

text \<open>
  One iteration of \<^verbatim>\<open>do { try { ... } catch (err) { ... } } while (true)\<close>; the flag says
  whether the iteration ended in \<^verbatim>\<open>break\<close>.
\<close>

definition mainIteration :: "BatchOutcome \<Rightarrow> MainState \<Rightarrow> MainState \<times> bool" where
  "mainIteration outcome st =
     (case outcome of
        BatchThrew \<Rightarrow>
          (st\<lparr>mainEffects := mainEffects st @ [Delay 5000, RefreshTwitterAuth]\<rparr>, False)
      | BatchReturned batch \<Rightarrow>
          (let st1 = advanceCursor batch st in
           if earlyExit (ctx st1) then (st1, True)
           else if debugTweetIds (ctx st1) \<noteq> [] then (st1, True)
           else
             (let e1 = (if hasNetworkError batch then [Delay 10000] else []);
                  e2 = (if hasTwitterRateLimitError batch then [Delay 30000] else []);
                  e3 = (if hasTwitterAuthError batch then [RefreshTwitterAuth] else [])
              in (st1\<lparr>mainEffects := mainEffects st1 @ e1 @ e2 @ e3\<rparr>, False))))"

text \<open>
  The loop over the outcomes of successive batches. It has no exit but \<^verbatim>\<open>break\<close>; a
  finite list of outcomes describes a finite prefix of a run.
\<close>

fun mainLoop :: "BatchOutcome list \<Rightarrow> MainState \<Rightarrow> MainState" where
  "mainLoop [] st = st"
| "mainLoop (outcome # outcomes) st =
     (case mainIteration outcome st of
        (st', True) \<Rightarrow> st'
      | (st', False) \<Rightarrow> mainLoop outcomes st')"


section \<open>Notions used to state the properties\<close>

subsection \<open>Threads\<close>

text \<open>
  \<open>isParentChain dbMessages m ancestors\<close>: following \<^verbatim>\<open>parentMessageId\<close> from \<open>m\<close> through
  the store visits exactly \<open>ancestors\<close>, nearest first, and then stops (the last turn has
  no parent, or its parent is not in the store). A chain of turns T1 (root), T2, T3
  (leaf) is \<open>isParentChain dbMessages T3 [T2, T1]\<close>.
\<close>

fun isParentChain :: "(twitter_id \<rightharpoonup> Message) \<Rightarrow> Message \<Rightarrow> Message list \<Rightarrow> bool" where
  "isParentChain dbMessages m [] =
     (case parentMessageId m of None \<Rightarrow> True | Some pid \<Rightarrow> dbMessages pid = None)"
| "isParentChain dbMessages m (a # as) =
     (case parentMessageId m of
        None \<Rightarrow> False
      | Some pid \<Rightarrow> dbMessages pid = Some a \<and> isParentChain dbMessages a as)"

text \<open>
  \<open>isRepliedToChain tw t prevs\<close>: following the \<^verbatim>\<open>replied_to\<close> reference from the tweet
  \<open>t\<close> visits exactly \<open>prevs\<close>, nearest first, and then stops (no such reference, or a
  tweet that cannot be fetched).
\<close>

fun isRepliedToChain :: "(twitter_id \<rightharpoonup> Tweet) \<Rightarrow> Tweet \<Rightarrow> Tweet list \<Rightarrow> bool" where
  "isRepliedToChain tw t [] =
     (case repliedToTweetRef t of None \<Rightarrow> True | Some r \<Rightarrow> tw (refId r) = None)"
| "isRepliedToChain tw t (p # ps) =
     (case repliedToTweetRef t of
        None \<Rightarrow> False
      | Some r \<Rightarrow> tw (refId r) = Some p \<and> isRepliedToChain tw p ps)"

text \<open>
  The remote posts that precede the bot's turns: the replied-to chain of the tweet that
  prompted the oldest turn, and nothing when that tweet cannot be fetched.
\<close>

definition isExternalThread :: "(twitter_id \<rightharpoonup> Tweet) \<Rightarrow> Message \<Rightarrow> Tweet list \<Rightarrow> bool" where
  "isExternalThread tw oldest prevs =
     (case tw (promptTweetId oldest) of
        None \<Rightarrow> prevs = []
      | Some t \<Rightarrow> isRepliedToChain tw t prevs)"

text \<open>The same, and nothing at all when external-thread inclusion is disabled.\<close>

definition externalContext ::
  "bool \<Rightarrow> (twitter_id \<rightharpoonup> Tweet) \<Rightarrow> Message \<Rightarrow> Tweet list \<Rightarrow> bool" where
  "externalContext resolvePrev tw oldest prevs =
     (if resolvePrev then isExternalThread tw oldest prevs else prevs = [])"

text \<open>
  How a turn that is not the leaf is rendered: its prompt as a user entry, followed by
  its response as an assistant entry when it has one.
\<close>

definition renderTurn :: "Message \<Rightarrow> ChatMsg list" where
  "renderTurn m =
     MsgUser (prompt m) #
       (case response m of None \<Rightarrow> [] | Some r \<Rightarrow> if r \<noteq> [] then [MsgAssistant r] else [])"

text \<open>The objects the first loop allocates for a list of parents, from index \<open>n\<close> on.\<close>

fun withRefs :: "nat \<Rightarrow> 'a list \<Rightarrow> 'a obj list" where
  "withRefs n [] = []"
| "withRefs n (a # as) = (n, a) # withRefs (Suc n) as"

subsection \<open>Mention fetching\<close>

text \<open>The largest identifier among a start value and the identifiers of some posts.\<close>

definition maxIdOver :: "twitter_id option \<Rightarrow> Tweet list \<Rightarrow> twitter_id option" where
  "maxIdOver s ms = foldl (\<lambda>s mention. maxTwitterId s (Some (tweetId mention))) s ms"

text \<open>The order of identifiers, an absent one below every other.\<close>

definition idLe :: "twitter_id option \<Rightarrow> twitter_id option \<Rightarrow> bool" where
  "idLe a b = (case a of None \<Rightarrow> True | Some x \<Rightarrow> (case b of None \<Rightarrow> False | Some y \<Rightarrow> x \<le> y))"

text \<open>All the mentions of the pages of one query.\<close>

definition pagesData :: "Page list \<Rightarrow> Tweet list" where
  "pagesData pages = concat (map pageData pages)"

fun isCacheEffect :: "Effect \<Rightarrow> bool" where
  "isCacheEffect (GetCachedUserMentionsForUserSince u s) = True"
| "isCacheEffect (UpsertTweetMentionsForUserId u ms) = True"
| "isCacheEffect e = False"

fun isRemoteQuery :: "Effect \<Rightarrow> bool" where
  "isRemoteQuery (UsersIdMentions u s) = True"
| "isRemoteQuery e = False"

text \<open>The cached result that seeds a call, when the cache is read and has mentions.\<close>

definition cacheHit ::
  "Context \<Rightarrow> cache \<Rightarrow> twitter_id \<Rightarrow> twitter_id option \<Rightarrow> TweetMentionFetchResult option" where
  "cacheHit c getCached uid since =
     (if noCache c then None
      else (case getCached uid (case since of None \<Rightarrow> 0 | Some s \<Rightarrow> s) of
              None \<Rightarrow> None
            | Some cachedResult \<Rightarrow> if mentions cachedResult \<noteq> [] then Some cachedResult else None))"

text \<open>
  A cache write of the call was rejected: among its effects is a write that the store
  rejects.
\<close>

fun cacheWriteRejected :: "'e upsert \<Rightarrow> Effect \<Rightarrow> bool" where
  "cacheWriteRejected upsertMentions (UpsertTweetMentionsForUserId u ms) =
     (upsertMentions u ms \<noteq> None)"
| "cacheWriteRejected upsertMentions e = False"

text \<open>
  The cache writes for the pages of a query are accepted: none is made (\<^verbatim>\<open>noCache\<close>), or
  the store resolves the write of every page that has mentions.
\<close>

definition cacheWritesAccepted ::
  "Context \<Rightarrow> 'e upsert \<Rightarrow> twitter_id \<Rightarrow> Page list \<Rightarrow> bool" where
  "cacheWritesAccepted c upsertMentions uid pages =
     (noCache c \<or>
      list_all (\<lambda>page. pageData page = [] \<or> upsertMentions uid (pageData page) = None) pages)"

text \<open>
  The state with which the outer loop starts its \<open>k\<close>-th query, if it gets that far: every
  earlier query ended without an error, of the remote feed or of a cache write, and the
  loop went on after it.
\<close>

fun loopStateAt ::
  "Context \<Rightarrow> 'e upsert \<Rightarrow> 'e remote \<Rightarrow> twitter_id \<Rightarrow> nat
     \<Rightarrow> TweetMentionFetchResult \<times> Effect list
     \<Rightarrow> (TweetMentionFetchResult \<times> Effect list) option" where
  "loopStateAt c upsertMentions remote uid 0 st = Some st"
| "loopStateAt c upsertMentions remote uid (Suc k) st =
     (case loopStateAt c upsertMentions remote uid k st of
        None \<Rightarrow> None
      | Some (result, effects) \<Rightarrow>
          (case remote k uid (sinceMentionId result) of (pages, failure) \<Rightarrow>
             (case forAwaitPages c upsertMentions uid pages
                     (result, 0, effects @ [UsersIdMentions uid (sinceMentionId result)]) of
                ((result', numMentionsInQuery, effects'), rejected) \<Rightarrow>
                  if rejected = None \<and> failure = None \<and> 5 \<le> numMentionsInQuery
                     \<and> resolveAllMentions c
                  then Some (result', effects')
                  else None)))"

text \<open>The result and the effects once the pages of a query have been consumed.\<close>

definition afterFetch ::
  "Context \<Rightarrow> 'e upsert \<Rightarrow> twitter_id \<Rightarrow> Page list \<Rightarrow> TweetMentionFetchResult \<Rightarrow> Effect list
     \<Rightarrow> TweetMentionFetchResult \<times> Effect list" where
  "afterFetch c upsertMentions uid pages result effects =
     (case forAwaitPages c upsertMentions uid pages
             (result, 0, effects @ [UsersIdMentions uid (sinceMentionId result)]) of
        ((result', n, effects'), rejected) \<Rightarrow> (result', effects'))"

text \<open>The class of the error the fetcher raises for a remote error.\<close>

definition errorTypeOf :: "('e \<Rightarrow> BotErrorType option) \<Rightarrow> 'e \<Rightarrow> BotErrorType" where
  "errorTypeOf h err = (case h err of Some t \<Rightarrow> t | None \<Rightarrow> twitter_unknown)"

subsection \<open>Control loop\<close>

text \<open>The conditions under which an iteration calls \<^verbatim>\<open>db.setSinceMentionId\<close>.\<close>

definition cursorWritten :: "Context \<Rightarrow> TweetMentionBatch \<Rightarrow> bool" where
  "cursorWritten c batch =
     (batchSinceMentionId batch \<noteq> None \<and> debugTweetIds c = [] \<and>
      \<not> resolveAllMentions c \<and> \<not> dryRun c)"

text \<open>
  A batch advanced the cursor when its \<^verbatim>\<open>sinceMentionId\<close> is at least the cursor in
  memory, the one the batch was fetched with.
\<close>

definition batchAdvanced :: "MainState \<Rightarrow> TweetMentionBatch \<Rightarrow> bool" where
  "batchAdvanced st batch = idLe (ctxSinceMentionId (ctx st)) (batchSinceMentionId batch)"

text \<open>The cursor in memory is at most the persisted one.\<close>

definition cursorInSync :: "MainState \<Rightarrow> bool" where
  "cursorInSync st = idLe (ctxSinceMentionId (ctx st)) (persistedSinceMentionId st)"

fun isSetSinceMentionId :: "MainEffect \<Rightarrow> bool" where
  "isSetSinceMentionId (SetSinceMentionId v) = True"
| "isSetSinceMentionId e = False"


section \<open>Example data\<close>

text \<open>Three turns T1 (root), T2 and T3 (leaf), and a second T2 that carries an error.\<close>

definition turnT1 :: Message where
  "turnT1 = \<lparr>messageId = 1, prompt = ''p1'', promptTweetId = 1, response = Some ''r1'',
             parentMessageId = None, error = None\<rparr>"

definition turnT2 :: Message where
  "turnT2 = \<lparr>messageId = 2, prompt = ''p2'', promptTweetId = 2, response = Some ''r2'',
             parentMessageId = Some 1, error = None\<rparr>"

definition turnT2failed :: Message where
  "turnT2failed = turnT2\<lparr>error := Some ''rate limited''\<rparr>"

definition turnT3 :: Message where
  "turnT3 = \<lparr>messageId = 3, prompt = ''p3'', promptTweetId = 3, response = Some ''r3'',
             parentMessageId = Some 2, error = Some ''network''\<rparr>"

definition turnsStore :: "twitter_id \<rightharpoonup> Message" where
  "turnsStore = [1 \<mapsto> turnT1, 2 \<mapsto> turnT2]"

definition turnsStoreFailed :: "twitter_id \<rightharpoonup> Message" where
  "turnsStoreFailed = [1 \<mapsto> turnT1, 2 \<mapsto> turnT2failed]"

text \<open>The remote thread before T1: tweet 1 replies to tweet 90, which replies to tweet 80.\<close>

definition tweet80 :: Tweet where
  "tweet80 = \<lparr>tweetId = 80, tweetText = ''first post'', referenced_tweets = None\<rparr>"

definition tweet90 :: Tweet where
  "tweet90 = \<lparr>tweetId = 90, tweetText = ''a reply'',
              referenced_tweets = Some [\<lparr>refType = ''replied_to'', refId = 80\<rparr>]\<rparr>"

definition tweet1 :: Tweet where
  "tweet1 = \<lparr>tweetId = 1, tweetText = ''@bot p1'',
             referenced_tweets = Some [\<lparr>refType = ''quoted'', refId = 70\<rparr>,
                                       \<lparr>refType = ''replied_to'', refId = 90\<rparr>]\<rparr>"

definition remoteTweets :: "twitter_id \<rightharpoonup> Tweet" where
  "remoteTweets = [1 \<mapsto> tweet1, 90 \<mapsto> tweet90, 80 \<mapsto> tweet80]"

text \<open>Mentions, pages, contexts, caches and remote feeds for the fetcher.\<close>

definition mention :: "twitter_id \<Rightarrow> Tweet" where
  "mention i = \<lparr>tweetId = i, tweetText = ''@bot hi'', referenced_tweets = None\<rparr>"

definition mentionsPage :: "twitter_id list \<Rightarrow> Page" where
  "mentionsPage ids = \<lparr>pageData = map mention ids, includesUsers = [], includesTweets = []\<rparr>"

definition alice :: TwitterUser where
  "alice = \<lparr>userId = 9, userUsername = ''alice''\<rparr>"

definition ctxDefault :: Context where
  "ctxDefault = \<lparr>ctxSinceMentionId = Some 100, dryRun = False, noCache = False,
                 earlyExit = False, resolveAllMentions = False, debugTweetIds = []\<rparr>"

definition ctxNoCache :: Context where
  "ctxNoCache = ctxDefault\<lparr>noCache := True\<rparr>"

definition ctxResolveAll :: Context where
  "ctxResolveAll = ctxNoCache\<lparr>resolveAllMentions := True\<rparr>"

text \<open>A classification of remote errors by HTTP status (0 for a network failure).\<close>

definition knownTwitterErrors :: "nat \<Rightarrow> BotErrorType option" where
  "knownTwitterErrors status =
     (if status = 429 then Some twitter_rate_limit
      else if status = 401 then Some twitter_auth
      else if status = 0 then Some network
      else None)"

text \<open>A store that resolves every cache write, and one that rejects every one.\<close>

definition storeAccepts :: "nat upsert" where
  "storeAccepts uid ms = None"

definition storeRejects :: "nat upsert" where
  "storeRejects uid ms = Some 503"

definition cacheEmpty :: cache where
  "cacheEmpty uid key = None"

definition cacheOne :: cache where
  "cacheOne uid key =
     (if key = 100
      then Some \<lparr>mentions = [mention 101], users = Map.empty, tweets = Map.empty,
                 sinceMentionId = Some 101\<rparr>
      else None)"

definition remoteNothing :: "nat remote" where
  "remoteNothing k uid since = ([], None)"

definition remoteStale :: "nat remote" where
  "remoteStale k uid since = ([mentionsPage [50]], None)"

definition remoteTwoNew :: "nat remote" where
  "remoteTwoNew k uid since = ([mentionsPage [102, 103]], None)"

definition remoteBacklog :: "nat remote" where
  "remoteBacklog k uid since =
     (if k = 0 then ([mentionsPage [101, 102, 103], mentionsPage [104, 105]], None)
      else if k = 1 then ([mentionsPage [106, 107]], None)
      else ([], None))"

definition remotePartial :: "nat remote" where
  "remotePartial k uid since = ([mentionsPage [101, 102], mentionsPage [103]], Some 429)"

definition remoteDown :: "nat remote" where
  "remoteDown k uid since = ([], Some 500)"

definition remoteWithIncludes :: "nat remote" where
  "remoteWithIncludes k uid since =
     ([\<lparr>pageData = [mention 101], includesUsers = [alice], includesTweets = [tweet80]\<rparr>],
      Some 429)"

text \<open>Batches and loop states for the control loop.\<close>

definition batch250 :: TweetMentionBatch where
  "batch250 = \<lparr>batchSinceMentionId = Some 250, hasNetworkError = False,
               hasTwitterRateLimitError = True, hasTwitterAuthError = False\<rparr>"

definition batch800 :: TweetMentionBatch where
  "batch800 = \<lparr>batchSinceMentionId = Some 800, hasNetworkError = False,
               hasTwitterRateLimitError = False, hasTwitterAuthError = False\<rparr>"

definition stateInSync :: MainState where
  "stateInSync = \<lparr>ctx = ctxDefault, persistedSinceMentionId = Some 100, mainEffects = []\<rparr>"

definition stateDryRun :: MainState where
  "stateDryRun = \<lparr>ctx = ctxDefault\<lparr>dryRun := True\<rparr>,
                  persistedSinceMentionId = Some 100, mainEffects = []\<rparr>"


section \<open>Properties of the bot-noise classifier\<close>

lemmas classifier_eval = isLikelyTwitterBot_def isKnownTwitterBot_def regexTestEnd_def
  twitterKnownBots_def toLowerCase_def toLowerChar_def

lemma toLowerChar_idem: "toLowerChar (toLowerChar c) = toLowerChar c"
  unfolding toLowerChar_def Let_def by (cases c) auto

lemma toLowerCase_idem: "toLowerCase (toLowerCase s) = toLowerCase s"
  by (simp add: toLowerCase_def toLowerChar_idem)

lemma regexTestEnd_iff: "regexTestEnd lit s = (\<exists>p. s = p @ lit)"
proof
  assume "regexTestEnd lit s"
  then have "s = take (length s - length lit) s @ lit"
    by (metis regexTestEnd_def append_take_drop_id)
  then show "\<exists>p. s = p @ lit" ..
next
  assume "\<exists>p. s = p @ lit"
  then obtain p where "s = p @ lit" ..
  then show "regexTestEnd lit s" by (simp add: regexTestEnd_def)
qed
text \<open>
  C8. For every username, \<open>isLikelyTwitterBot\<close> is true exactly when the lower-cased
  username belongs to the curated set or ends in \<^verbatim>\<open>bot\<close>, \<^verbatim>\<open>gpt\<close> or \<^verbatim>\<open>status\<close>;
  the answer does not change when the argument is lower-cased first (case-insensitivity);
  \<^verbatim>\<open>foobot\<close> is classified as a bot by its suffix although it is not in the curated
  set, and \<^verbatim>\<open>threadreaderapp\<close> is classified as a bot by membership (it has none of the
  three suffixes).
\<close>

theorem isLikelyTwitterBot_characterisation:
  "(isLikelyTwitterBot username =
      (toLowerCase username \<in> twitterKnownBots
       \<or> (\<exists>p. toLowerCase username = p @ ''bot'')
       \<or> (\<exists>p. toLowerCase username = p @ ''gpt'')
       \<or> (\<exists>p. toLowerCase username = p @ ''status'')))
   \<and> isLikelyTwitterBot (toLowerCase username) = isLikelyTwitterBot username
   \<and> isLikelyTwitterBot ''foobot'' \<and> ''foobot'' \<notin> twitterKnownBots
   \<and> isLikelyTwitterBot ''threadreaderapp'' \<and> ''threadreaderapp'' \<in> twitterKnownBots
   \<and> \<not> regexTestEnd ''bot'' ''threadreaderapp''
   \<and> \<not> regexTestEnd ''gpt'' ''threadreaderapp''
   \<and> \<not> regexTestEnd ''status'' ''threadreaderapp''"
proof -
  have char: "isLikelyTwitterBot u =
      (toLowerCase u \<in> twitterKnownBots
       \<or> (\<exists>p. toLowerCase u = p @ ''bot'')
       \<or> (\<exists>p. toLowerCase u = p @ ''gpt'')
       \<or> (\<exists>p. toLowerCase u = p @ ''status''))" for u
    unfolding isLikelyTwitterBot_def isKnownTwitterBot_def Let_def toLowerCase_idem
      regexTestEnd_iff by argo
  have ci: "isLikelyTwitterBot (toLowerCase username) = isLikelyTwitterBot username"
    unfolding char toLowerCase_idem ..
  have foo: "isLikelyTwitterBot ''foobot''" by (simp add: classifier_eval)
  have foo_not: "''foobot'' \<notin> twitterKnownBots" by (simp add: classifier_eval)
  have tra: "isLikelyTwitterBot ''threadreaderapp''" by (simp add: classifier_eval)
  have tra_in: "''threadreaderapp'' \<in> twitterKnownBots" by (simp add: classifier_eval)
  have no_suffix: "\<not> regexTestEnd ''bot'' ''threadreaderapp''"
    "\<not> regexTestEnd ''gpt'' ''threadreaderapp''"
    "\<not> regexTestEnd ''status'' ''threadreaderapp''"
    by (simp_all add: regexTestEnd_def)
  note char' = char [of username]
  show ?thesis
    apply (rule conjI, rule char')
    apply (rule conjI, rule ci)
    apply (rule conjI, rule foo)
    apply (rule conjI, rule foo_not)
    apply (rule conjI, rule tra)
    apply (rule conjI, rule tra_in)
    apply (rule conjI, rule no_suffix)
    apply (rule conjI, rule no_suffix)
    apply (rule no_suffix)
    done
qed

theorem isLikelyTwitterBot_characterisation_witness:
  "isLikelyTwitterBot ''FooBOT'' \<and> \<not> isLikelyTwitterBot ''alice''"
proof -
  have a: "\<exists>p. toLowerCase ''FooBOT'' = p @ ''bot''"
    by (rule exI [of _ "''foo''"]) code_simp
  have b: "\<not> isLikelyTwitterBot ''alice''" by (simp add: classifier_eval)
  from isLikelyTwitterBot_characterisation [of "''FooBOT''"]
  have "isLikelyTwitterBot ''FooBOT'' =
      (toLowerCase ''FooBOT'' \<in> twitterKnownBots
       \<or> (\<exists>p. toLowerCase ''FooBOT'' = p @ ''bot'')
       \<or> (\<exists>p. toLowerCase ''FooBOT'' = p @ ''gpt'')
       \<or> (\<exists>p. toLowerCase ''FooBOT'' = p @ ''status''))" by (rule conjunct1)
  then have "isLikelyTwitterBot ''FooBOT''"
    by (rule iffD2) (rule disjI2, rule disjI1, rule a)
  then show ?thesis using b ..
qed


section \<open>Properties of the thread resolver\<close>

lemmas thread_examples = turnT1_def turnT2_def turnT2failed_def turnT3_def turnsStore_def
  turnsStoreFailed_def tweet80_def tweet90_def tweet1_def remoteTweets_def

lemmas thread_eval = externalContext_def isExternalThread_def repliedToTweetRef_def
  truthy_def renderTurn_def

text \<open>
  The first loop returns exactly when the chain of parents is finite. On a store with a
  cycle it never does: a turn stored under the identifier of its own parent exhausts any
  amount of fuel.
\<close>

lemma resolveParentMessages_cycle:
  "parentMessageId m = Some pid \<Longrightarrow> dbMessages pid = Some m \<Longrightarrow>
   resolveParentMessages fuel dbMessages (r, m) acc = None"
  by (induction fuel arbitrary: r acc) simp_all

lemma map_snd_withRefs: "map snd (withRefs n as) = as"
  by (induction as arbitrary: n) auto

lemma fst_withRefs: "z \<in> set (withRefs n as) \<Longrightarrow> n \<le> fst z"
  by (induction as arbitrary: n) fastforce+

lemma resolveParentMessages_chain:
  "isParentChain db m as \<Longrightarrow> length as < fuel \<Longrightarrow>
   resolveParentMessages fuel db (r, m) acc =
     Some (last ((r, m) # withRefs (length acc) as), acc @ withRefs (length acc) as)"
proof (induction as arbitrary: m fuel r acc)
  case Nil
  then obtain f where f: "fuel = Suc f" by (cases fuel) auto
  from Nil show ?case by (auto simp: f split: option.splits)
next
  case (Cons a as)
  then obtain f where f: "fuel = Suc f" by (cases fuel) auto
  from Cons.prems obtain pid where pid: "parentMessageId m = Some pid" "db pid = Some a"
    and ch: "isParentChain db a as" by (auto split: option.splits)
  have lf: "length as < f" using Cons.prems f by simp
  show ?case
    using Cons.IH [OF ch lf, of "length acc" "acc @ [(length acc, a)]"]
    by (simp add: f pid)
qed

lemma resolvePrevTweets_chain:
  "isRepliedToChain tw t ps \<Longrightarrow> length ps < fuel \<Longrightarrow>
   resolvePrevTweets fuel tw t acc = Some (acc @ ps)"
proof (induction ps arbitrary: t fuel acc)
  case Nil
  then obtain f where f: "fuel = Suc f" by (cases fuel) auto
  from Nil show ?case by (auto simp: f split: option.splits)
next
  case (Cons p ps)
  then obtain f where f: "fuel = Suc f" by (cases fuel) auto
  from Cons.prems obtain r where r: "repliedToTweetRef t = Some r" "tw (refId r) = Some p"
    and ch: "isRepliedToChain tw p ps" by (auto split: option.splits)
  have lf: "length ps < f" using Cons.prems f by simp
  show ?case using Cons.IH [OF ch lf, of "acc @ [p]"] by (simp add: f r)
qed

lemma snd_last_withRefs: "snd (last ((r, m) # withRefs n as)) = last (m # as)"
  by (induction as arbitrary: r m n) auto

lemma render_withRefs:
  "\<forall>z \<in> set zs. fst z \<noteq> 0 \<Longrightarrow>
   concat (map (chatMessagesForBotMessage (0, leaf))
     (filter (\<lambda>m. \<not> truthy (error (snd m)) \<or> fst m = fst (0::nat, leaf)) zs)) =
   concat (map renderTurn (filter (\<lambda>m. \<not> truthy (error m)) (map snd zs)))"
  by (induction zs)
     (auto simp: chatMessagesForBotMessage_def renderTurn_def filterBoolean_def
           split: option.splits)

lemma render_leaf:
  "chatMessagesForBotMessage (0, leaf) (0, leaf) = [MsgUser (prompt leaf)]"
  by (simp add: chatMessagesForBotMessage_def filterBoolean_def split: option.splits)

text \<open>
  The result of \<open>resolveMessageThread\<close> on every finite thread: the remote posts before
  the oldest turn, oldest first; then the turns before the leaf, oldest first, without
  those that carry an error; then the prompt of the leaf.
\<close>

lemma resolveMessageThread_chain:
  assumes chain: "isParentChain dbMessages leaf ancestors"
    and ext: "resolvePrev \<longrightarrow> isExternalThread tw (last (leaf # ancestors)) prevs"
    and noext: "\<not> resolvePrev \<longrightarrow> prevs = []"
    and fuel: "length ancestors < fuel" "length prevs < fuel"
  shows "resolveMessageThread fuel dbMessages tw leaf resolvePrev =
     Some (map (\<lambda>t. MsgUser (tweetText t)) (rev prevs)
           @ concat (map renderTurn (filter (\<lambda>m. \<not> truthy (error m)) (rev ancestors)))
           @ [MsgUser (prompt leaf)])"
proof -
  let ?zs = "withRefs (Suc 0) ancestors"
  have walk: "resolveParentMessages fuel dbMessages (0, leaf) [(0, leaf)] =
      Some (last ((0, leaf) # ?zs), (0, leaf) # ?zs)"
    using resolveParentMessages_chain [OF chain fuel(1), of 0 "[(0, leaf)]"] by simp
  have prev: "(if resolvePrev
                 then (case tw (promptTweetId (snd (last ((0, leaf) # ?zs)))) of
                         None \<Rightarrow> Some []
                       | Some tweet \<Rightarrow> resolvePrevTweets fuel tw tweet [])
                 else Some []) = Some prevs"
  proof (cases resolvePrev)
    case False
    with noext show ?thesis by simp
  next
    case True
    with ext have e: "isExternalThread tw (last (leaf # ancestors)) prevs" by simp
    show ?thesis
    proof (cases "tw (promptTweetId (last (leaf # ancestors)))")
      case None
      with e True show ?thesis
        by (simp add: isExternalThread_def snd_last_withRefs del: last.simps)
    next
      case (Some t)
      with e have "isRepliedToChain tw t prevs" by (simp add: isExternalThread_def)
      from resolvePrevTweets_chain [OF this fuel(2), of "[]"] Some True
      show ?thesis by (simp add: snd_last_withRefs del: last.simps)
    qed
  qed
  have nz: "\<forall>z \<in> set (rev ?zs). fst z \<noteq> 0"
    using fst_withRefs [of _ "Suc 0" ancestors] by fastforce
  have bot: "concat (map (chatMessagesForBotMessage (0, leaf))
       (filter (\<lambda>m. \<not> truthy (error (snd m)) \<or> fst m = fst (0::nat, leaf))
          (rev ((0, leaf) # ?zs)))) =
     concat (map renderTurn (filter (\<lambda>m. \<not> truthy (error m)) (rev ancestors)))
       @ [MsgUser (prompt leaf)]"
    using render_withRefs [OF nz, of leaf]
    by (simp add: render_leaf rev_map [symmetric] map_snd_withRefs)
  show ?thesis
    by (simp only: resolveMessageThread_def Let_def walk option.case prod.case prev bot)
qed

text \<open>
  C5. For a leaf turn whose chain of parents is \<open>ancestors\<close> (nearest first) and whose
  remote pre-thread posts are \<open>prevs\<close> (nearest first), \<open>resolveMessageThread\<close> returns,
  given fuel beyond the two lengths: the pre-thread posts as user entries, oldest first;
  after them the earlier turns in the order root to leaf, each as its prompt followed by
  its response; and last the prompt of the leaf alone, whatever the leaf's response is.
  For turns T1 (root), T2, T3 (leaf) without errors on T1 and T2 this is the rendering of
  \<open>[T1, T2, T3]\<close>. Turns with an error are left out (C6).
\<close>

theorem resolveMessageThread_oldest_first:
  assumes "isParentChain dbMessages leaf ancestors"
    and "externalContext resolvePrev tw (last (leaf # ancestors)) prevs"
    and "length ancestors < fuel" and "length prevs < fuel"
  shows "resolveMessageThread fuel dbMessages tw leaf resolvePrev =
     Some (map (\<lambda>t. MsgUser (tweetText t)) (rev prevs)
           @ concat (map renderTurn (filter (\<lambda>m. \<not> truthy (error m)) (rev ancestors)))
           @ [MsgUser (prompt leaf)])"
  using assms resolveMessageThread_chain [of dbMessages leaf ancestors resolvePrev tw prevs fuel]
  by (simp add: externalContext_def split: if_splits)

text \<open>
  The chain T1, T2, T3 with two remote posts before T1: T3 has a response (and an
  error), and the output ends with its prompt.
\<close>

theorem resolveMessageThread_oldest_first_witness:
  "resolveMessageThread 3 turnsStore remoteTweets turnT3 True =
     Some [MsgUser ''first post'', MsgUser ''a reply'',
           MsgUser ''p1'', MsgAssistant ''r1'',
           MsgUser ''p2'', MsgAssistant ''r2'',
           MsgUser ''p3'']"
proof -
  have chain: "isParentChain turnsStore turnT3 [turnT2, turnT1]"
    by (simp add: thread_examples)
  have ext: "externalContext True remoteTweets (last (turnT3 # [turnT2, turnT1]))
               [tweet90, tweet80]"
    by (simp add: thread_examples thread_eval)
  have f1: "length [turnT2, turnT1] < 3" by simp
  have f2: "length [tweet90, tweet80] < 3" by simp
  from resolveMessageThread_oldest_first [OF chain ext f1 f2]
  show ?thesis by (simp add: thread_examples thread_eval)
qed

text \<open>
  C6. In the output of \<open>resolveMessageThread\<close> the turns rendered before the leaf are
  exactly the ancestors that carry no error: every turn with an error that is not the
  leaf is left out. The leaf is rendered in every case: no hypothesis constrains its
  \<open>error\<close>. (A turn carries an error when its \<^verbatim>\<open>error\<close> is a non-empty string, which is
  what the source tests; whether the error is final plays no part.)
\<close>

theorem resolveMessageThread_error_turns:
  assumes "isParentChain dbMessages leaf ancestors"
    and "externalContext resolvePrev tw (last (leaf # ancestors)) prevs"
    and "length ancestors < fuel" and "length prevs < fuel"
  shows "\<exists>kept. resolveMessageThread fuel dbMessages tw leaf resolvePrev =
           Some (map (\<lambda>t. MsgUser (tweetText t)) (rev prevs)
                 @ concat (map renderTurn kept) @ [MsgUser (prompt leaf)])
         \<and> set kept = set ancestors - {a. truthy (error a)}"
proof -
  let ?kept = "filter (\<lambda>m. \<not> truthy (error m)) (rev ancestors)"
  have "resolveMessageThread fuel dbMessages tw leaf resolvePrev =
           Some (map (\<lambda>t. MsgUser (tweetText t)) (rev prevs)
                 @ concat (map renderTurn ?kept) @ [MsgUser (prompt leaf)])"
    using assms
      resolveMessageThread_chain [of dbMessages leaf ancestors resolvePrev tw prevs fuel]
    by (simp add: externalContext_def split: if_splits)
  moreover have "set ?kept = set ancestors - {a. truthy (error a)}" by auto
  ultimately show ?thesis by blast
qed

text \<open>
  T2 with an error is left out of the thread of T3, and rendered when it is the leaf
  itself; T3, the leaf, has an error too and is rendered.
\<close>

theorem resolveMessageThread_error_turns_witness:
  "resolveMessageThread 3 turnsStoreFailed remoteTweets turnT3 True =
     Some [MsgUser ''first post'', MsgUser ''a reply'',
           MsgUser ''p1'', MsgAssistant ''r1'', MsgUser ''p3'']
   \<and> resolveMessageThread 3 turnsStoreFailed remoteTweets turnT2failed True =
     Some [MsgUser ''first post'', MsgUser ''a reply'',
           MsgUser ''p1'', MsgAssistant ''r1'', MsgUser ''p2'']
   \<and> truthy (error turnT2failed) \<and> truthy (error turnT3)"
proof -
  have chain: "isParentChain turnsStoreFailed turnT3 [turnT2failed, turnT1]"
    by (simp add: thread_examples)
  have ext: "externalContext True remoteTweets (last (turnT3 # [turnT2failed, turnT1]))
               [tweet90, tweet80]"
    by (simp add: thread_examples thread_eval)
  have f1: "length [turnT2failed, turnT1] < 3" by simp
  have f2: "length [tweet90, tweet80] < 3" by simp
  from resolveMessageThread_error_turns [OF chain ext f1 f2]
  obtain kept where out: "resolveMessageThread 3 turnsStoreFailed remoteTweets turnT3 True =
           Some (map (\<lambda>t. MsgUser (tweetText t)) (rev [tweet90, tweet80])
                 @ concat (map renderTurn kept) @ [MsgUser (prompt turnT3)])"
    and kept: "set kept = set [turnT2failed, turnT1] - {a. truthy (error a)}" by blast
  have direct: "resolveMessageThread 3 turnsStoreFailed remoteTweets turnT3 True =
     Some [MsgUser ''first post'', MsgUser ''a reply'',
           MsgUser ''p1'', MsgAssistant ''r1'', MsgUser ''p3'']"
    using out kept
    by (simp add: resolveMessageThread_def chatMessagesForBotMessage_def filterBoolean_def
          thread_examples thread_eval numeral_3_eq_3)
  have leaf: "resolveMessageThread 3 turnsStoreFailed remoteTweets turnT2failed True =
     Some [MsgUser ''first post'', MsgUser ''a reply'',
           MsgUser ''p1'', MsgAssistant ''r1'', MsgUser ''p2'']"
    by (simp add: resolveMessageThread_def chatMessagesForBotMessage_def filterBoolean_def
          thread_examples thread_eval numeral_3_eq_3)
  have errs: "truthy (error turnT2failed)" "truthy (error turnT3)"
    by (simp_all add: thread_examples thread_eval)
  from direct leaf errs show ?thesis by simp
qed

text \<open>
  C7. For a leaf without \<^verbatim>\<open>parentMessageId\<close>, when external-thread inclusion is disabled
  or the tweet that prompted the leaf has no resolvable replied-to reference (the tweet
  cannot be fetched, it has no such reference, or the tweet referred to cannot be
  fetched), \<open>resolveMessageThread\<close> returns the single user entry with the leaf's prompt.
\<close>

theorem resolveMessageThread_no_parent:
  assumes "parentMessageId leaf = None"
    and "externalContext resolvePrev tw leaf []"
  shows "resolveMessageThread (Suc fuel) dbMessages tw leaf resolvePrev =
           Some [MsgUser (prompt leaf)]"
proof -
  have chain: "isParentChain dbMessages leaf []" using assms(1) by simp
  from assms(2) have ext: "resolvePrev \<longrightarrow> isExternalThread tw (last (leaf # [])) []"
    by (simp add: externalContext_def)
  from resolveMessageThread_chain [OF chain ext, of "Suc fuel"] show ?thesis by simp
qed

theorem resolveMessageThread_no_parent_witness:
  "resolveMessageThread 1 turnsStore remoteTweets turnT1 False = Some [MsgUser ''p1'']
   \<and> resolveMessageThread 1 turnsStore Map.empty turnT1 True = Some [MsgUser ''p1'']"
proof -
  have np: "parentMessageId turnT1 = None" by (simp add: thread_examples)
  have e1: "externalContext False remoteTweets turnT1 []" by (simp add: externalContext_def)
  have e2: "externalContext True Map.empty turnT1 []"
    by (simp add: thread_eval)
  from resolveMessageThread_no_parent [OF np e1, of 0 turnsStore]
       resolveMessageThread_no_parent [OF np e2, of 0 turnsStore]
  show ?thesis by (simp add: thread_examples)
qed


section \<open>Properties of the mention fetcher\<close>

lemmas fetch_examples = mention_def mentionsPage_def ctxDefault_def ctxNoCache_def
  ctxResolveAll_def knownTwitterErrors_def cacheEmpty_def cacheOne_def remoteNothing_def
  remoteStale_def remoteTwoNew_def remoteBacklog_def remotePartial_def remoteDown_def
  remoteWithIncludes_def alice_def tweet80_def storeAccepts_def storeRejects_def

lemmas fetch_eval = getTwitterUserIdMentions_def seedFromCache_def processPage_def
  mergeIncludes_def flushAndReturn_def maxIdOver_def pagesData_def afterFetch_def cacheHit_def
  cacheWritesAccepted_def Let_def numeral_2_eq_2

lemma maxTwitterId_None [simp]: "maxTwitterId a None = a" "maxTwitterId None b = b"
  by (simp_all add: maxTwitterId_def split: option.splits)

lemma maxTwitterId_Some [simp]: "maxTwitterId (Some a) (Some b) = Some (max a b)"
  by (simp add: maxTwitterId_def)

lemma idLe_refl [simp]: "idLe a a"
  by (simp add: idLe_def split: option.splits)

lemma idLe_trans: "idLe a b \<Longrightarrow> idLe b c \<Longrightarrow> idLe a c"
  by (auto simp: idLe_def split: option.splits)

lemma idLe_max1 [simp]: "idLe a (maxTwitterId a b)"
  by (cases a; cases b) (simp_all add: idLe_def)

lemma idLe_max2 [simp]: "idLe b (maxTwitterId a b)"
  by (cases a; cases b) (simp_all add: idLe_def)

lemma maxTwitterId_absorb: "idLe a b \<Longrightarrow> maxTwitterId a b = b"
  by (cases a; cases b) (simp_all add: idLe_def max_def)

lemma maxTwitterId_assoc:
  "maxTwitterId (maxTwitterId a b) c = maxTwitterId a (maxTwitterId b c)"
  by (cases a; cases b; cases c) (simp_all add: max.assoc)

lemma maxIdOver_append: "maxIdOver s (xs @ ys) = maxIdOver (maxIdOver s xs) ys"
  by (simp add: maxIdOver_def)

lemma maxIdOver_max: "maxIdOver s ms = maxTwitterId s (maxIdOver None ms)"
proof (induction ms arbitrary: s)
  case Nil
  then show ?case by (simp add: maxIdOver_def)
next
  case (Cons m ms)
  have "maxIdOver s (m # ms) = maxIdOver (maxTwitterId s (Some (tweetId m))) ms"
    by (simp add: maxIdOver_def)
  also have "\<dots> = maxTwitterId (maxTwitterId s (Some (tweetId m))) (maxIdOver None ms)"
    by (rule Cons.IH)
  also have "\<dots> = maxTwitterId s (maxTwitterId (Some (tweetId m)) (maxIdOver None ms))"
    by (rule maxTwitterId_assoc)
  also have "maxTwitterId (Some (tweetId m)) (maxIdOver None ms) = maxIdOver (Some (tweetId m)) ms"
    by (rule Cons.IH [symmetric])
  also have "maxIdOver (Some (tweetId m)) ms = maxIdOver None (m # ms)"
    by (simp add: maxIdOver_def)
  finally show ?case .
qed


lemma maxIdOver_Nil [simp]: "maxIdOver s [] = s"
  by (simp add: maxIdOver_def)

lemma idLe_maxIdOver [simp]: "idLe s (maxIdOver s ms)"
  by (subst maxIdOver_max) (rule idLe_max1)

text \<open>
  What the body of the page loop does to the result: it appends the mentions of the page
  and counts them, and never lowers \<^verbatim>\<open>sinceMentionId\<close>; it adds at most the cache write of
  the page to the effects, and none when \<^verbatim>\<open>noCache\<close> is set. The body throws exactly when
  that write is rejected; when it does not throw, \<^verbatim>\<open>sinceMentionId\<close> has been raised to
  the maximum with the identifiers of the page.
\<close>

lemma processPage_facts:
  "processPage c u uid page (result, n, effects) = ((result', n', effects'), rej) \<Longrightarrow>
   mentions result' = mentions result @ pageData page \<and>
   n' = n + length (pageData page) \<and>
   idLe (sinceMentionId result) (sinceMentionId result') \<and>
   (rej = None \<longrightarrow>
      sinceMentionId result' = maxIdOver (sinceMentionId result) (pageData page)) \<and>
   (rej \<noteq> None \<longrightarrow> pageData page \<noteq> []) \<and>
   (\<exists>new. effects' = effects @ new \<and> filter isRemoteQuery new = [] \<and>
      (noCache c \<longrightarrow> new = []) \<and>
      (filter (cacheWriteRejected u) new = []) = (rej = None))"
  by (auto simp: processPage_def mergeIncludes_def Let_def maxIdOver_def [symmetric]
      split: if_splits option.splits)

lemma forAwaitPages_facts:
  "forAwaitPages c u uid pages (result, n, effects) = ((result', n', effects'), rej) \<Longrightarrow>
   idLe (sinceMentionId result) (sinceMentionId result') \<and>
   (rej = None \<longrightarrow>
      mentions result' = mentions result @ pagesData pages \<and>
      sinceMentionId result' = maxIdOver (sinceMentionId result) (pagesData pages) \<and>
      n' = n + length (pagesData pages)) \<and>
   (rej \<noteq> None \<longrightarrow> mentions result' \<noteq> []) \<and>
   (\<exists>new. effects' = effects @ new \<and> filter isRemoteQuery new = [] \<and>
      (noCache c \<longrightarrow> new = []) \<and>
      (filter (cacheWriteRejected u) new = []) = (rej = None))"
proof (induction pages arbitrary: result n effects)
  case Nil
  then show ?case by (simp add: pagesData_def maxIdOver_def)
next
  case (Cons page pages)
  obtain r1 n1 e1 rej1
    where p: "processPage c u uid page (result, n, effects) = ((r1, n1, e1), rej1)"
    by (cases "processPage c u uid page (result, n, effects)") auto
  from processPage_facts [OF p] obtain new1 where
    m1: "mentions r1 = mentions result @ pageData page"
    and c1: "n1 = n + length (pageData page)"
    and l1: "idLe (sinceMentionId result) (sinceMentionId r1)"
    and s1: "rej1 = None \<longrightarrow>
               sinceMentionId r1 = maxIdOver (sinceMentionId result) (pageData page)"
    and d1: "rej1 \<noteq> None \<longrightarrow> pageData page \<noteq> []"
    and e1: "e1 = effects @ new1" and q1: "filter isRemoteQuery new1 = []"
    and nc1: "noCache c \<longrightarrow> new1 = []"
    and w1: "(filter (cacheWriteRejected u) new1 = []) = (rej1 = None)"
    by blast
  show ?case
  proof (cases rej1)
    case (Some err)
    with Cons.prems p have eq: "result' = r1" "n' = n1" "effects' = e1" "rej = Some err"
      by simp_all
    from d1 Some m1 have "mentions r1 \<noteq> []" by simp
    with eq l1 e1 q1 nc1 w1 Some show ?thesis by auto
  next
    case None
    with Cons.prems p
    have rest: "forAwaitPages c u uid pages (r1, n1, e1) = ((result', n', effects'), rej)"
      by simp
    from Cons.IH [OF rest] obtain new2 where
      l2: "idLe (sinceMentionId r1) (sinceMentionId result')"
      and s2: "rej = None \<longrightarrow>
          mentions result' = mentions r1 @ pagesData pages \<and>
          sinceMentionId result' = maxIdOver (sinceMentionId r1) (pagesData pages) \<and>
          n' = n1 + length (pagesData pages)"
      and d2: "rej \<noteq> None \<longrightarrow> mentions result' \<noteq> []"
      and e2: "effects' = e1 @ new2" and q2: "filter isRemoteQuery new2 = []"
      and nc2: "noCache c \<longrightarrow> new2 = []"
      and w2: "(filter (cacheWriteRejected u) new2 = []) = (rej = None)"
      by blast
    have a: "idLe (sinceMentionId result) (sinceMentionId result')"
      by (rule idLe_trans [OF l1 l2])
    have b: "rej = None \<longrightarrow>
        mentions result' = mentions result @ pagesData (page # pages) \<and>
        sinceMentionId result' = maxIdOver (sinceMentionId result) (pagesData (page # pages)) \<and>
        n' = n + length (pagesData (page # pages))"
      using s2 s1 None m1 c1 by (simp add: pagesData_def maxIdOver_append)
    have w: "(filter (cacheWriteRejected u) (new1 @ new2) = []) = (rej = None)"
      using w1 w2 None by simp
    have "effects' = effects @ (new1 @ new2) \<and> filter isRemoteQuery (new1 @ new2) = [] \<and>
      (noCache c \<longrightarrow> new1 @ new2 = []) \<and>
      (filter (cacheWriteRejected u) (new1 @ new2) = []) = (rej = None)"
      using e1 e2 q1 q2 nc1 nc2 w by simp
    then have c: "\<exists>new. effects' = effects @ new \<and> filter isRemoteQuery new = [] \<and>
      (noCache c \<longrightarrow> new = []) \<and>
      (filter (cacheWriteRejected u) new = []) = (rej = None)" ..
    from a b d2 c show ?thesis by simp
  qed
qed

text \<open>When the cache writes for the pages are accepted, the page loop does not throw.\<close>

lemma processPage_accepted:
  "noCache c \<or> pageData page = [] \<or> u uid (pageData page) = None \<Longrightarrow>
   snd (processPage c u uid page st) = None"
  by (auto simp: processPage_def Let_def split: prod.splits option.splits)

lemma forAwaitPages_accepted:
  "cacheWritesAccepted c u uid pages \<Longrightarrow> snd (forAwaitPages c u uid pages st) = None"
proof (induction pages arbitrary: st)
  case Nil
  then show ?case by simp
next
  case (Cons page pages)
  from Cons.prems have here: "noCache c \<or> pageData page = [] \<or> u uid (pageData page) = None"
    and later: "cacheWritesAccepted c u uid pages"
    by (auto simp: cacheWritesAccepted_def)
  obtain st' where p: "processPage c u uid page st = (st', None)"
    using processPage_accepted [where u = u and uid = uid and st = st, OF here] by (cases "processPage c u uid page st") auto
  then have "forAwaitPages c u uid (page # pages) st = forAwaitPages c u uid pages st'"
    by simp
  with Cons.IH [OF later, of st'] show ?case by simp
qed

lemma forAwaitPages_accepted_facts:
  assumes acc: "cacheWritesAccepted c u uid pages"
  shows "\<exists>r1 e1. forAwaitPages c u uid pages (result, n, effects) =
            ((r1, n + length (pagesData pages), e1), None) \<and>
          mentions r1 = mentions result @ pagesData pages \<and>
          sinceMentionId r1 = maxIdOver (sinceMentionId result) (pagesData pages)"
proof -
  obtain r1 n1 e1 rej
    where fa: "forAwaitPages c u uid pages (result, n, effects) = ((r1, n1, e1), rej)"
    by (cases "forAwaitPages c u uid pages (result, n, effects)") auto
  from forAwaitPages_accepted [OF acc, of "(result, n, effects)"] fa have rej: "rej = None"
    by simp
  from forAwaitPages_facts [OF fa] rej
  have "mentions r1 = mentions result @ pagesData pages"
    "sinceMentionId r1 = maxIdOver (sinceMentionId result) (pagesData pages)"
    "n1 = n + length (pagesData pages)" by simp_all
  with fa rej show ?thesis by simp
qed

lemma afterFetch_facts:
  assumes acc: "cacheWritesAccepted c u uid pages"
    and af: "afterFetch c u uid pages result effects = (result', effects')"
  shows "mentions result' = mentions result @ pagesData pages \<and>
         sinceMentionId result' = maxIdOver (sinceMentionId result) (pagesData pages)"
proof -
  from forAwaitPages_accepted_facts [OF acc,
      of result 0 "effects @ [UsersIdMentions uid (sinceMentionId result)]"]
  obtain r1 e1 where fa: "forAwaitPages c u uid pages
      (result, 0, effects @ [UsersIdMentions uid (sinceMentionId result)]) =
        ((r1, 0 + length (pagesData pages), e1), None)"
    and m: "mentions r1 = mentions result @ pagesData pages"
    and s: "sinceMentionId r1 = maxIdOver (sinceMentionId result) (pagesData pages)"
    by blast
  from af fa have "result' = r1" by (simp add: afterFetch_def)
  with m s show ?thesis by simp
qed

lemma fetchLoop_from_state:
  "loopStateAt c u remote uid k st0 = Some (result, effects) \<Longrightarrow>
   fetchLoop (k + fuel) c h u remote uid 0 (fst st0) (snd st0) =
   fetchLoop fuel c h u remote uid k result effects"
proof (induction k arbitrary: result effects fuel)
  case 0
  then show ?case by simp
next
  case (Suc k)
  from Suc.prems obtain r0 e0 where prev: "loopStateAt c u remote uid k st0 = Some (r0, e0)"
    by (auto split: option.splits)
  obtain pages failure where rem: "remote k uid (sinceMentionId r0) = (pages, failure)"
    by (cases "remote k uid (sinceMentionId r0)") auto
  obtain r1 n1 e1 rej where fa: "forAwaitPages c u uid pages
      (r0, 0, e0 @ [UsersIdMentions uid (sinceMentionId r0)]) = ((r1, n1, e1), rej)"
    by (cases "forAwaitPages c u uid pages
      (r0, 0, e0 @ [UsersIdMentions uid (sinceMentionId r0)])") auto
  from Suc.prems prev rem fa
  have cont: "rej = None" "failure = None" "5 \<le> n1" "resolveAllMentions c"
    "result = r1" "effects = e1"
    by (auto split: if_splits)
  have "fetchLoop (Suc k + fuel) c h u remote uid 0 (fst st0) (snd st0) =
        fetchLoop (Suc fuel) c h u remote uid k r0 e0"
    using Suc.IH [OF prev, of "Suc fuel"] by simp
  also have "\<dots> = fetchLoop fuel c h u remote uid (Suc k) result effects"
    using rem fa cont by simp
  finally show ?case .
qed

text \<open>
  What holds of every call that terminates: the effects only grow, and with \<^verbatim>\<open>noCache\<close>
  no cache effect is added; a result that is returned has a \<^verbatim>\<open>sinceMentionId\<close> not below
  the one the loop started with, is followed by the two final upserts, and, when no cache
  write was rejected on the way, has the mentions fetched live appended and its
  \<^verbatim>\<open>sinceMentionId\<close> raised over exactly those.
\<close>

lemma fetchLoop_invariant:
  "fetchLoop fuel c h u remote uid k result effects = Some (out, effs) \<Longrightarrow>
   \<exists>new. effs = effects @ new \<and> (noCache c \<longrightarrow> filter isCacheEffect new = []) \<and>
     (\<forall>r. out = Returned r \<longrightarrow>
        idLe (sinceMentionId result) (sinceMentionId r) \<and>
        (\<exists>pre. effs = pre @ [UpsertTweets (tweets r), UpsertTwitterUsers (users r)]) \<and>
        (filter (cacheWriteRejected u) new = [] \<longrightarrow>
           (\<exists>live. mentions r = mentions result @ live \<and>
              sinceMentionId r = maxIdOver (sinceMentionId result) live)))"
proof (induction fuel arbitrary: k result effects)
  case 0
  then show ?case by simp
next
  case (Suc fuel)
  let ?q = "UsersIdMentions uid (sinceMentionId result)"
  obtain pages failure where rem: "remote k uid (sinceMentionId result) = (pages, failure)"
    by (cases "remote k uid (sinceMentionId result)") auto
  obtain r1 n1 e1 rej where fa: "forAwaitPages c u uid pages
      (result, 0, effects @ [?q]) = ((r1, n1, e1), rej)"
    by (cases "forAwaitPages c u uid pages (result, 0, effects @ [?q])") auto
  from forAwaitPages_facts [OF fa] obtain new1 where
    l1: "idLe (sinceMentionId result) (sinceMentionId r1)"
    and s1: "rej = None \<longrightarrow>
          mentions r1 = mentions result @ pagesData pages \<and>
          sinceMentionId r1 = maxIdOver (sinceMentionId result) (pagesData pages)"
    and e1: "e1 = (effects @ [?q]) @ new1"
    and nc1: "noCache c \<longrightarrow> new1 = []"
    and w1: "(filter (cacheWriteRejected u) new1 = []) = (rej = None)"
    by blast
  show ?case
  proof (cases "rej = None \<and> failure = None \<and> 5 \<le> n1 \<and> resolveAllMentions c")
    case True
    with Suc.prems rem fa
    have rec: "fetchLoop fuel c h u remote uid (Suc k) r1 e1 = Some (out, effs)" by simp
    from Suc.IH [OF rec] obtain new2 where
      e2: "effs = e1 @ new2"
      and nc2: "noCache c \<longrightarrow> filter isCacheEffect new2 = []"
      and r2: "\<forall>r. out = Returned r \<longrightarrow>
        idLe (sinceMentionId r1) (sinceMentionId r) \<and>
        (\<exists>pre. effs = pre @ [UpsertTweets (tweets r), UpsertTwitterUsers (users r)]) \<and>
        (filter (cacheWriteRejected u) new2 = [] \<longrightarrow>
           (\<exists>live. mentions r = mentions r1 @ live \<and>
              sinceMentionId r = maxIdOver (sinceMentionId r1) live))"
      by blast
    have a: "effs = effects @ (?q # new1 @ new2)" using e1 e2 by simp
    have b: "noCache c \<longrightarrow> filter isCacheEffect (?q # new1 @ new2) = []"
      using nc1 nc2 by simp
    have d: "idLe (sinceMentionId result) (sinceMentionId r) \<and>
        (\<exists>pre. effs = pre @ [UpsertTweets (tweets r), UpsertTwitterUsers (users r)]) \<and>
        (filter (cacheWriteRejected u) (?q # new1 @ new2) = [] \<longrightarrow>
           (\<exists>live. mentions r = mentions result @ live \<and>
              sinceMentionId r = maxIdOver (sinceMentionId result) live))"
      if ret: "out = Returned r" for r
    proof -
      from r2 ret have le: "idLe (sinceMentionId r1) (sinceMentionId r)"
        and pre: "\<exists>pre. effs = pre @ [UpsertTweets (tweets r), UpsertTwitterUsers (users r)]"
        and lv: "filter (cacheWriteRejected u) new2 = [] \<longrightarrow>
           (\<exists>live. mentions r = mentions r1 @ live \<and>
              sinceMentionId r = maxIdOver (sinceMentionId r1) live)"
        by simp_all
      have "\<exists>live. mentions r = mentions result @ live \<and>
              sinceMentionId r = maxIdOver (sinceMentionId result) live"
        if "filter (cacheWriteRejected u) (?q # new1 @ new2) = []"
      proof -
        from that have "filter (cacheWriteRejected u) new2 = []" by simp
        with lv obtain live where "mentions r = mentions r1 @ live"
          "sinceMentionId r = maxIdOver (sinceMentionId r1) live" by blast
        with s1 True have "mentions r = mentions result @ (pagesData pages @ live) \<and>
          sinceMentionId r = maxIdOver (sinceMentionId result) (pagesData pages @ live)"
          by (simp add: maxIdOver_append)
        then show ?thesis ..
      qed
      with idLe_trans [OF l1 le] pre show ?thesis by simp
    qed
    from a b d show ?thesis by blast
  next
    case False
    show ?thesis
    proof (cases "out")
      case (Returned r)
      with False Suc.prems rem fa have eq: "r = r1"
        "effs = e1 @ [UpsertTweets (tweets r1), UpsertTwitterUsers (users r1)]"
        by (auto simp: flushAndReturn_def split: option.splits if_splits)
      let ?new = "?q # new1 @ [UpsertTweets (tweets r1), UpsertTwitterUsers (users r1)]"
      have a: "effs = effects @ ?new" using e1 eq by simp
      have b: "noCache c \<longrightarrow> filter isCacheEffect ?new = []" using nc1 by simp
      have "\<exists>live. mentions r1 = mentions result @ live \<and>
              sinceMentionId r1 = maxIdOver (sinceMentionId result) live"
        if "filter (cacheWriteRejected u) ?new = []"
      proof -
        from that have "filter (cacheWriteRejected u) new1 = []" by simp
        with w1 have "rej = None" by simp
        with s1 have "mentions r1 = mentions result @ pagesData pages \<and>
          sinceMentionId r1 = maxIdOver (sinceMentionId result) (pagesData pages)" by simp
        then show ?thesis ..
      qed
      with a b l1 eq Returned show ?thesis by blast
    next
      case (Thrown x)
      with False Suc.prems rem fa have "effs = e1"
        by (auto simp: flushAndReturn_def split: option.splits if_splits)
      then have a: "effs = effects @ (?q # new1)" using e1 by simp
      have b: "noCache c \<longrightarrow> filter isCacheEffect (?q # new1) = []" using nc1 by simp
      from a b Thrown show ?thesis by blast
    qed
  qed
qed

lemma fetchLoop_failure_afterFetch:
  assumes fail: "remote k uid (sinceMentionId result) = (pages, Some err)"
    and acc: "cacheWritesAccepted c u uid pages"
    and af: "afterFetch c u uid pages result effects = (result', effects')"
  shows "fetchLoop (Suc fuel) c h u remote uid k result effects =
     (if mentions result @ pagesData pages \<noteq> []
      then Some (Returned result',
                 effects' @ [UpsertTweets (tweets result'), UpsertTwitterUsers (users result')])
      else Some (Thrown (BotError (errorTypeOf h err) err), effects'))"
proof -
  from forAwaitPages_accepted_facts [OF acc,
      of result 0 "effects @ [UsersIdMentions uid (sinceMentionId result)]"]
  obtain r1 e1 where fa: "forAwaitPages c u uid pages
      (result, 0, effects @ [UsersIdMentions uid (sinceMentionId result)]) =
        ((r1, 0 + length (pagesData pages), e1), None)"
    and m: "mentions r1 = mentions result @ pagesData pages"
    by blast
  with af have eq: "result' = r1" "effects' = e1" by (simp_all add: afterFetch_def)
  show ?thesis
    using fail fa eq m by (simp add: flushAndReturn_def errorTypeOf_def)
qed

lemma fetchLoop_success_afterFetch:
  assumes ok: "remote k uid (sinceMentionId result) = (pages, None)"
    and acc: "cacheWritesAccepted c u uid pages"
    and af: "afterFetch c u uid pages result effects = (result', effects')"
  shows "fetchLoop (Suc fuel) c h u remote uid k result effects =
     (if resolveAllMentions c \<and> 5 \<le> length (pagesData pages)
      then fetchLoop fuel c h u remote uid (Suc k) result' effects'
      else Some (Returned result',
                 effects' @ [UpsertTweets (tweets result'), UpsertTwitterUsers (users result')]))"
proof -
  from forAwaitPages_accepted_facts [OF acc,
      of result 0 "effects @ [UsersIdMentions uid (sinceMentionId result)]"]
  obtain r1 e1 where fa: "forAwaitPages c u uid pages
      (result, 0, effects @ [UsersIdMentions uid (sinceMentionId result)]) =
        ((r1, 0 + length (pagesData pages), e1), None)"
    by blast
  with af have eq: "result' = r1" "effects' = e1" by (simp_all add: afterFetch_def)
  show ?thesis using ok fa eq by (auto simp: flushAndReturn_def)
qed

lemma loopStateAt_resolveAll:
  "loopStateAt c u remote uid (Suc k) st0 = Some st \<Longrightarrow> resolveAllMentions c"
  by (auto split: option.splits prod.splits if_splits)

lemma seedFromCache_cacheHit:
  "fst (seedFromCache c getCached uid since) =
     (case cacheHit c getCached uid since of
        None \<Rightarrow> \<lparr>mentions = [], users = Map.empty, tweets = Map.empty, sinceMentionId = since\<rparr>
      | Some cachedResult \<Rightarrow>
          \<lparr>mentions = mentions cachedResult, users = users cachedResult,
           tweets = tweets cachedResult,
           sinceMentionId = maxTwitterId since (sinceMentionId cachedResult)\<rparr>)"
  by (simp add: seedFromCache_def cacheHit_def Let_def split: option.splits)

lemma seedFromCache_effects:
  "noCache c \<Longrightarrow> snd (seedFromCache c getCached uid since) = []"
  by (simp add: seedFromCache_def)

lemma seedFromCache_no_write:
  "filter (cacheWriteRejected u) (snd (seedFromCache c getCached uid since)) = []"
  by (simp add: seedFromCache_def Let_def split: option.splits)

lemma getTwitterUserIdMentions_fetchLoop:
  "getTwitterUserIdMentions fuel c h getCached u remote uid since =
     fetchLoop fuel c h u remote uid 0 (fst (seedFromCache c getCached uid since))
       (snd (seedFromCache c getCached uid since))"
  by (simp add: getTwitterUserIdMentions_def split: prod.splits)

text \<open>
  A rejected cache write. The store rejects the write of the only page, which holds the
  posts 102 and 103: the \<^verbatim>\<open>catch\<close> finds mentions accumulated and leaves the loop, and the
  call returns both posts with the \<^verbatim>\<open>sinceMentionId\<close> 100 it was given, since the
  rejection precedes the loop that raises it.
\<close>

lemma getTwitterUserIdMentions_rejected_write:
  "getTwitterUserIdMentions 1 ctxDefault knownTwitterErrors cacheEmpty storeRejects remoteTwoNew 7
     (Some 100) =
     Some (Returned \<lparr>mentions = [mention 102, mention 103], users = Map.empty,
                     tweets = Map.empty, sinceMentionId = Some 100\<rparr>,
           [GetCachedUserMentionsForUserSince 7 100, UsersIdMentions 7 (Some 100),
            UpsertTweetMentionsForUserId 7 [mention 102, mention 103],
            UpsertTweets Map.empty, UpsertTwitterUsers Map.empty])"
  by (simp add: fetch_eval fetch_examples)

text \<open>
  C2 (as amended). For every call of \<open>getTwitterUserIdMentions\<close> that returns normally,
  the returned \<^verbatim>\<open>sinceMentionId\<close> is at least the input \<^verbatim>\<open>since_id\<close>. When the store
  rejected no cache write of the call, it is the maximum of the input \<^verbatim>\<open>since_id\<close>, the
  \<^verbatim>\<open>sinceMentionId\<close> recorded in the cached result (when the cache seeds the call) and the
  identifiers of all posts fetched live, each of which it therefore bounds; and when
  moreover the cached result records the maximum identifier of its own mentions (or the
  cache does not seed the call), it is the maximum of the input \<^verbatim>\<open>since_id\<close> and the
  largest identifier among all returned posts. A call during which a cache write was
  rejected is promised the first bound only: the posts of the rejected page are returned,
  and \<^verbatim>\<open>sinceMentionId\<close> has not been raised over them.
\<close>

theorem getTwitterUserIdMentions_sinceId:
  assumes ret: "getTwitterUserIdMentions fuel c h getCached u remote uid since =
                  Some (Returned r, effs)"
  shows "idLe since (sinceMentionId r)
    \<and> (if filter (cacheWriteRejected u) effs = []
       then (\<exists>live. mentions r =
                 (case cacheHit c getCached uid since of None \<Rightarrow> []
                  | Some cachedResult \<Rightarrow> mentions cachedResult) @ live
              \<and> sinceMentionId r =
                 maxTwitterId
                   (maxTwitterId since
                      (case cacheHit c getCached uid since of None \<Rightarrow> None
                       | Some cachedResult \<Rightarrow> sinceMentionId cachedResult))
                   (maxIdOver None live)
              \<and> idLe (maxIdOver None live) (sinceMentionId r))
          \<and> (if (case cacheHit c getCached uid since of None \<Rightarrow> True
                  | Some cachedResult \<Rightarrow>
                      sinceMentionId cachedResult = maxIdOver None (mentions cachedResult))
              then sinceMentionId r = maxTwitterId since (maxIdOver None (mentions r))
              else True)
       else True)"
proof -
  let ?seed = "fst (seedFromCache c getCached uid since)"
  let ?seedEffects = "snd (seedFromCache c getCached uid since)"
  from ret have "fetchLoop fuel c h u remote uid 0 ?seed ?seedEffects = Some (Returned r, effs)"
    by (simp add: getTwitterUserIdMentions_fetchLoop)
  from fetchLoop_invariant [OF this] obtain new where
    e: "effs = ?seedEffects @ new"
    and le0: "idLe (sinceMentionId ?seed) (sinceMentionId r)"
    and lv: "filter (cacheWriteRejected u) new = [] \<longrightarrow>
           (\<exists>live. mentions r = mentions ?seed @ live \<and>
              sinceMentionId r = maxIdOver (sinceMentionId ?seed) live)"
    by blast
  have "idLe since (sinceMentionId ?seed)"
    by (cases "cacheHit c getCached uid since") (simp_all add: seedFromCache_cacheHit)
  then have le: "idLe since (sinceMentionId r)" using le0 by (rule idLe_trans)
  show ?thesis
  proof (cases "filter (cacheWriteRejected u) effs = []")
    case False
    with le show ?thesis by simp
  next
    case True
    then have "filter (cacheWriteRejected u) new = []" using e by simp
    with lv obtain live where
      m: "mentions r = mentions ?seed @ live"
      and s: "sinceMentionId r = maxIdOver (sinceMentionId ?seed) live" by blast
    have s': "sinceMentionId r = maxTwitterId (sinceMentionId ?seed) (maxIdOver None live)"
      using s maxIdOver_max [of "sinceMentionId ?seed" live] by simp
    show ?thesis
    proof (cases "cacheHit c getCached uid since")
      case None
      then have seed: "mentions ?seed = []" "sinceMentionId ?seed = since"
        by (simp_all add: seedFromCache_cacheHit)
      from m s' seed None le True show ?thesis by auto
    next
      case (Some cr)
      then have seed: "mentions ?seed = mentions cr"
        "sinceMentionId ?seed = maxTwitterId since (sinceMentionId cr)"
        by (simp_all add: seedFromCache_cacheHit)
      have cons: "sinceMentionId r = maxTwitterId since (maxIdOver None (mentions r))"
        if "sinceMentionId cr = maxIdOver None (mentions cr)"
      proof -
        have "maxIdOver None (mentions r) = maxIdOver (maxIdOver None (mentions cr)) live"
          by (simp add: m seed maxIdOver_append)
        also have "\<dots> = maxTwitterId (maxIdOver None (mentions cr)) (maxIdOver None live)"
          by (rule maxIdOver_max)
        finally show ?thesis using that by (simp add: s' seed maxTwitterId_assoc)
      qed
      from m s' seed Some le cons True show ?thesis by auto
    qed
  qed
qed

theorem getTwitterUserIdMentions_sinceId_witness:
  "getTwitterUserIdMentions 1 ctxDefault knownTwitterErrors cacheOne storeAccepts remoteTwoNew 7
      (Some 100) =
     Some (Returned \<lparr>mentions = [mention 101, mention 102, mention 103], users = Map.empty,
                     tweets = Map.empty, sinceMentionId = Some 103\<rparr>,
           [GetCachedUserMentionsForUserSince 7 100, UsersIdMentions 7 (Some 101),
            UpsertTweetMentionsForUserId 7 [mention 102, mention 103],
            UpsertTweets Map.empty, UpsertTwitterUsers Map.empty])
   \<and> filter (cacheWriteRejected storeAccepts)
        [GetCachedUserMentionsForUserSince 7 100, UsersIdMentions 7 (Some 101),
         UpsertTweetMentionsForUserId 7 [mention 102, mention 103],
         UpsertTweets Map.empty, UpsertTwitterUsers Map.empty] = []
   \<and> idLe (Some 100) (Some 103)"
proof -
  have run: "getTwitterUserIdMentions 1 ctxDefault knownTwitterErrors cacheOne storeAccepts
      remoteTwoNew 7 (Some 100) =
     Some (Returned \<lparr>mentions = [mention 101, mention 102, mention 103], users = Map.empty,
                     tweets = Map.empty, sinceMentionId = Some 103\<rparr>,
           [GetCachedUserMentionsForUserSince 7 100, UsersIdMentions 7 (Some 101),
            UpsertTweetMentionsForUserId 7 [mention 102, mention 103],
            UpsertTweets Map.empty, UpsertTwitterUsers Map.empty])"
    by (simp add: fetch_eval fetch_examples)
  have acc: "filter (cacheWriteRejected storeAccepts)
        [GetCachedUserMentionsForUserSince 7 100, UsersIdMentions 7 (Some 101),
         UpsertTweetMentionsForUserId 7 [mention 102, mention 103],
         UpsertTweets Map.empty, UpsertTwitterUsers Map.empty] = []"
    by (simp add: storeAccepts_def)
  from getTwitterUserIdMentions_sinceId [OF run]
  have "idLe (Some 100) (sinceMentionId \<lparr>mentions = [mention 101, mention 102, mention 103],
      users = Map.empty, tweets = Map.empty, sinceMentionId = Some 103\<rparr>)" by (rule conjunct1)
  with run acc show ?thesis by simp
qed

text \<open>
  The claim as stated fails: with nothing new the call returns no post and the input
  \<^verbatim>\<open>since_id\<close> 100, which is not a maximum over the returned posts; and for a page that
  holds a post with the older identifier 50 it returns 100, while the largest identifier
  among the returned posts is 50.
\<close>

theorem getTwitterUserIdMentions_sinceId_counterexample:
  "getTwitterUserIdMentions 1 ctxNoCache knownTwitterErrors cacheEmpty storeAccepts remoteNothing 7
      (Some 100) =
     Some (Returned \<lparr>mentions = [], users = Map.empty, tweets = Map.empty,
                     sinceMentionId = Some 100\<rparr>,
           [UsersIdMentions 7 (Some 100), UpsertTweets Map.empty, UpsertTwitterUsers Map.empty])
   \<and> Some 100 \<noteq> maxIdOver None []
   \<and> getTwitterUserIdMentions 1 ctxNoCache knownTwitterErrors cacheEmpty storeAccepts remoteStale 7
      (Some 100) =
     Some (Returned \<lparr>mentions = [mention 50], users = Map.empty, tweets = Map.empty,
                     sinceMentionId = Some 100\<rparr>,
           [UsersIdMentions 7 (Some 100), UpsertTweets Map.empty, UpsertTwitterUsers Map.empty])
   \<and> Some 100 \<noteq> maxIdOver None [mention 50]"
  by (simp add: fetch_eval fetch_examples)

text \<open>
  C3. Let the outer loop reach its \<open>k\<close>-th query with the mentions of \<open>result\<close> accumulated
  (from the cache and from earlier queries), and let that query throw after yielding
  \<open>pages\<close>, whose cache writes the store accepts, so that the error is the remote one.
  With fuel for that query the call terminates, and: if a mention has been accumulated,
  it returns normally with exactly the accumulated mentions and with the \<^verbatim>\<open>sinceMentionId\<close>
  that reflects those; if none has, it throws a \<^verbatim>\<open>BotError\<close> whose type is the class of
  the error (\<^verbatim>\<open>'twitter:unknown'\<close> for an unclassified one) and whose cause is the error,
  and returns no result.
\<close>

theorem getTwitterUserIdMentions_remote_error:
  assumes reach: "loopStateAt c u remote uid k (seedFromCache c getCached uid since) =
                    Some (result, effects)"
    and fail: "remote k uid (sinceMentionId result) = (pages, Some err)"
    and acc: "cacheWritesAccepted c u uid pages"
    and fuel: "k < fuel"
  shows "if mentions result @ pagesData pages \<noteq> []
         then (\<exists>r effs. getTwitterUserIdMentions fuel c h getCached u remote uid since =
                   Some (Returned r, effs)
                 \<and> mentions r = mentions result @ pagesData pages
                 \<and> sinceMentionId r = maxIdOver (sinceMentionId result) (pagesData pages))
         else (\<exists>effs. getTwitterUserIdMentions fuel c h getCached u remote uid since =
                   Some (Thrown (BotError (errorTypeOf h err) err), effs))"
proof -
  from fuel have "fuel = k + Suc (fuel - Suc k)" by simp
  then obtain f where f: "fuel = k + Suc f" ..
  obtain result' effects'
    where af: "afterFetch c u uid pages result effects = (result', effects')"
    by (cases "afterFetch c u uid pages result effects") auto
  note facts = afterFetch_facts [OF acc af]
  have g: "getTwitterUserIdMentions fuel c h getCached u remote uid since =
        fetchLoop (Suc f) c h u remote uid k result effects"
    unfolding getTwitterUserIdMentions_fetchLoop f
    by (rule fetchLoop_from_state [OF reach])
  note fl = fetchLoop_failure_afterFetch [where remote = remote, OF fail acc af, of f h]
  show ?thesis
  proof (cases "mentions result @ pagesData pages \<noteq> []")
    case True
    have "getTwitterUserIdMentions fuel c h getCached u remote uid since =
        Some (Returned result',
              effects' @ [UpsertTweets (tweets result'), UpsertTwitterUsers (users result')])"
      unfolding g fl if_P [OF True] ..
    with facts have "\<exists>r effs. getTwitterUserIdMentions fuel c h getCached u remote uid since =
                   Some (Returned r, effs)
                 \<and> mentions r = mentions result @ pagesData pages
                 \<and> sinceMentionId r = maxIdOver (sinceMentionId result) (pagesData pages)"
      by blast
    then show ?thesis unfolding if_P [OF True] .
  next
    case False
    have "getTwitterUserIdMentions fuel c h getCached u remote uid since =
        Some (Thrown (BotError (errorTypeOf h err) err), effects')"
      unfolding g fl if_not_P [OF False] ..
    then have "\<exists>effs. getTwitterUserIdMentions fuel c h getCached u remote uid since =
                   Some (Thrown (BotError (errorTypeOf h err) err), effs)" ..
    then show ?thesis unfolding if_not_P [OF False] .
  qed
qed

text \<open>
  A query that fails after two pages returns their three mentions; one that fails at
  once, with nothing accumulated, throws.
\<close>

theorem getTwitterUserIdMentions_remote_error_witness:
  "getTwitterUserIdMentions 1 ctxDefault knownTwitterErrors cacheEmpty storeAccepts remotePartial 7
      (Some 100) =
     Some (Returned \<lparr>mentions = [mention 101, mention 102, mention 103], users = Map.empty,
                     tweets = Map.empty, sinceMentionId = Some 103\<rparr>,
           [GetCachedUserMentionsForUserSince 7 100, UsersIdMentions 7 (Some 100),
            UpsertTweetMentionsForUserId 7 [mention 101, mention 102],
            UpsertTweetMentionsForUserId 7 [mention 103],
            UpsertTweets Map.empty, UpsertTwitterUsers Map.empty])
   \<and> getTwitterUserIdMentions 1 ctxNoCache knownTwitterErrors cacheEmpty storeAccepts remoteDown 7
      (Some 100) =
     Some (Thrown (BotError twitter_unknown 500), [UsersIdMentions 7 (Some 100)])"
proof -
  let ?seed = "\<lparr>mentions = [], users = Map.empty, tweets = Map.empty,
                 sinceMentionId = Some (100::nat)\<rparr>"
  have r1: "loopStateAt ctxDefault storeAccepts remotePartial 7 0
      (seedFromCache ctxDefault cacheEmpty 7 (Some 100)) =
        Some (?seed, [GetCachedUserMentionsForUserSince 7 100])"
    by (simp add: fetch_eval fetch_examples)
  have f1: "remotePartial 0 7 (sinceMentionId ?seed) =
      ([mentionsPage [101, 102], mentionsPage [103]], Some 429)"
    by (simp add: remotePartial_def)
  have a1: "cacheWritesAccepted ctxDefault storeAccepts 7
      [mentionsPage [101, 102], mentionsPage [103]]"
    by (simp add: cacheWritesAccepted_def storeAccepts_def)
  have r2: "loopStateAt ctxNoCache storeAccepts remoteDown 7 0
      (seedFromCache ctxNoCache cacheEmpty 7 (Some 100)) = Some (?seed, [])"
    by (simp add: fetch_eval fetch_examples)
  have f2: "remoteDown 0 7 (sinceMentionId ?seed) = ([], Some 500)"
    by (simp add: remoteDown_def)
  have a2: "cacheWritesAccepted ctxNoCache storeAccepts 7 []"
    by (simp add: cacheWritesAccepted_def)
  have k: "(0::nat) < 1" by simp
  have c1: "mentions ?seed @ pagesData [mentionsPage [101, 102], mentionsPage [103]] \<noteq> []"
    by (simp add: pagesData_def mentionsPage_def)
  have c2: "\<not> (mentions ?seed @ pagesData [] \<noteq> [])"
    by (simp add: pagesData_def)
  note t1 = getTwitterUserIdMentions_remote_error
    [where remote = remotePartial and h = knownTwitterErrors, OF r1 f1 a1 k]
  note t2 = getTwitterUserIdMentions_remote_error
    [where remote = remoteDown and h = knownTwitterErrors, OF r2 f2 a2 k]
  from t1 [unfolded if_P [OF c1]]
  obtain r effs where ret: "getTwitterUserIdMentions 1 ctxDefault knownTwitterErrors cacheEmpty
      storeAccepts remotePartial 7 (Some 100) = Some (Returned r, effs)"
    by (elim exE conjE)
  from t2 [unfolded if_not_P [OF c2]]
  obtain effs' where thr: "getTwitterUserIdMentions 1 ctxNoCache knownTwitterErrors cacheEmpty
      storeAccepts remoteDown 7 (Some 100) =
        Some (Thrown (BotError (errorTypeOf knownTwitterErrors 500) 500), effs')"
    by (elim exE)
  have run1: "getTwitterUserIdMentions 1 ctxDefault knownTwitterErrors cacheEmpty storeAccepts
      remotePartial 7 (Some 100) =
     Some (Returned \<lparr>mentions = [mention 101, mention 102, mention 103], users = Map.empty,
                     tweets = Map.empty, sinceMentionId = Some 103\<rparr>,
           [GetCachedUserMentionsForUserSince 7 100, UsersIdMentions 7 (Some 100),
            UpsertTweetMentionsForUserId 7 [mention 101, mention 102],
            UpsertTweetMentionsForUserId 7 [mention 103],
            UpsertTweets Map.empty, UpsertTwitterUsers Map.empty])"
    by (simp add: fetch_eval fetch_examples)
  have run2: "getTwitterUserIdMentions 1 ctxNoCache knownTwitterErrors cacheEmpty storeAccepts
      remoteDown 7 (Some 100) =
        Some (Thrown (BotError twitter_unknown 500), [UsersIdMentions 7 (Some 100)])"
    by (simp add: fetch_eval fetch_examples)
  from ret thr show ?thesis unfolding run1 run2 by simp
qed

text \<open>
  C4 (as amended). When a query that the outer loop has reached ends without an error,
  of the remote feed or of a cache write, the loop issues another query exactly when
  \<^verbatim>\<open>resolveAllMentions\<close> is set and the query yielded five mentions or more; otherwise
  the call returns. Without \<^verbatim>\<open>resolveAllMentions\<close> the loop never reaches a second query
  (\<open>k = 0\<close>): it stops after its first paginated fetch, however many mentions that fetch
  yields.
\<close>

theorem getTwitterUserIdMentions_outer_loop:
  assumes reach: "loopStateAt c u remote uid k (seedFromCache c getCached uid since) =
                    Some (result, effects)"
    and ok: "remote k uid (sinceMentionId result) = (pages, None)"
    and acc: "cacheWritesAccepted c u uid pages"
    and af: "afterFetch c u uid pages result effects = (result', effects')"
  shows "getTwitterUserIdMentions (Suc (k + fuel)) c h getCached u remote uid since =
     (if resolveAllMentions c \<and> 5 \<le> length (pagesData pages)
      then fetchLoop fuel c h u remote uid (Suc k) result' effects'
      else Some (Returned result',
                 effects' @ [UpsertTweets (tweets result'), UpsertTwitterUsers (users result')]))
    \<and> (if resolveAllMentions c then True else k = 0)"
proof -
  have "getTwitterUserIdMentions (Suc (k + fuel)) c h getCached u remote uid since =
        fetchLoop (Suc fuel) c h u remote uid k result effects"
    using fetchLoop_from_state [OF reach, of "Suc fuel" h]
    by (simp add: getTwitterUserIdMentions_fetchLoop)
  then have a: "getTwitterUserIdMentions (Suc (k + fuel)) c h getCached u remote uid since =
     (if resolveAllMentions c \<and> 5 \<le> length (pagesData pages)
      then fetchLoop fuel c h u remote uid (Suc k) result' effects'
      else Some (Returned result',
                 effects' @ [UpsertTweets (tweets result'), UpsertTwitterUsers (users result')]))"
    using fetchLoop_success_afterFetch [where remote = remote, OF ok acc af, of fuel h] by simp
  have b: "if resolveAllMentions c then True else k = 0"
  proof (cases k)
    case 0
    then show ?thesis by simp
  next
    case (Suc j)
    from reach have "loopStateAt c u remote uid (Suc j) (seedFromCache c getCached uid since) =
        Some (result, effects)" unfolding Suc .
    then have "resolveAllMentions c" by (rule loopStateAt_resolveAll)
    then show ?thesis by simp
  qed
  from a b show ?thesis by simp
qed

text \<open>
  With \<^verbatim>\<open>resolveAllMentions\<close>, a first query of five mentions is followed by a second one,
  of two, after which the call returns.
\<close>

theorem getTwitterUserIdMentions_outer_loop_witness:
  "getTwitterUserIdMentions 2 ctxResolveAll knownTwitterErrors cacheEmpty storeAccepts
      remoteBacklog 7 (Some 100) =
     Some (Returned \<lparr>mentions = [mention 101, mention 102, mention 103, mention 104,
                                  mention 105, mention 106, mention 107],
                     users = Map.empty, tweets = Map.empty, sinceMentionId = Some 107\<rparr>,
           [UsersIdMentions 7 (Some 100), UsersIdMentions 7 (Some 105),
            UpsertTweets Map.empty, UpsertTwitterUsers Map.empty])"
proof -
  let ?seed = "\<lparr>mentions = [], users = Map.empty, tweets = Map.empty,
                 sinceMentionId = Some (100::nat)\<rparr>"
  let ?pages = "[mentionsPage [101, 102, 103], mentionsPage [104, 105]]"
  let ?r1 = "\<lparr>mentions = [mention 101, mention 102, mention 103, mention 104, mention 105],
               users = Map.empty, tweets = Map.empty, sinceMentionId = Some (105::nat)\<rparr>"
  have reach: "loopStateAt ctxResolveAll storeAccepts remoteBacklog 7 0
      (seedFromCache ctxResolveAll cacheEmpty 7 (Some 100)) = Some (?seed, [])"
    by (simp add: fetch_eval fetch_examples)
  have ok: "remoteBacklog 0 7 (sinceMentionId ?seed) = (?pages, None)"
    by (simp add: remoteBacklog_def)
  have acc: "cacheWritesAccepted ctxResolveAll storeAccepts 7 ?pages"
    by (simp add: cacheWritesAccepted_def storeAccepts_def)
  have af: "afterFetch ctxResolveAll storeAccepts 7 ?pages ?seed [] =
      (?r1, [UsersIdMentions 7 (Some 100)])"
    by (simp add: fetch_eval fetch_examples)
  have c: "resolveAllMentions ctxResolveAll \<and> 5 \<le> length (pagesData ?pages)"
    by (simp add: fetch_examples pagesData_def)
  note t = getTwitterUserIdMentions_outer_loop
    [where remote = remoteBacklog and h = knownTwitterErrors and fuel = 1, OF reach ok acc af]
  from t [unfolded if_P [OF c]]
  have "getTwitterUserIdMentions (Suc (0 + 1)) ctxResolveAll knownTwitterErrors cacheEmpty
      storeAccepts remoteBacklog 7 (Some 100) =
      fetchLoop 1 ctxResolveAll knownTwitterErrors storeAccepts remoteBacklog 7 (Suc 0) ?r1
        [UsersIdMentions 7 (Some 100)]" by (rule conjunct1)
  moreover have "fetchLoop 1 ctxResolveAll knownTwitterErrors storeAccepts remoteBacklog 7
        (Suc 0) ?r1 [UsersIdMentions 7 (Some 100)] =
     Some (Returned \<lparr>mentions = [mention 101, mention 102, mention 103, mention 104,
                                  mention 105, mention 106, mention 107],
                     users = Map.empty, tweets = Map.empty, sinceMentionId = Some 107\<rparr>,
           [UsersIdMentions 7 (Some 100), UsersIdMentions 7 (Some 105),
            UpsertTweets Map.empty, UpsertTwitterUsers Map.empty])"
    by (simp add: fetch_eval fetch_examples)
  moreover have "Suc (0 + 1) = 2" by simp
  ultimately show ?thesis by (simp only:)
qed

text \<open>
  The claim as stated fails: without \<^verbatim>\<open>resolveAllMentions\<close> a first query that yields five
  mentions is the only one, though the feed has more and fuel remains.
\<close>

theorem getTwitterUserIdMentions_outer_loop_counterexample:
  "getTwitterUserIdMentions 2 ctxNoCache knownTwitterErrors cacheEmpty storeAccepts remoteBacklog 7
      (Some 100) =
     Some (Returned \<lparr>mentions = [mention 101, mention 102, mention 103, mention 104,
                                  mention 105],
                     users = Map.empty, tweets = Map.empty, sinceMentionId = Some 105\<rparr>,
           [UsersIdMentions 7 (Some 100), UpsertTweets Map.empty, UpsertTwitterUsers Map.empty])
   \<and> \<not> resolveAllMentions ctxNoCache
   \<and> length (pagesData (fst (remoteBacklog 0 7 (Some 100)))) = 5"
  by (simp add: fetch_eval fetch_examples)

text \<open>
  C10. When \<^verbatim>\<open>noCache\<close> is set, a call of \<open>getTwitterUserIdMentions\<close> that terminates has
  neither read the cached mentions nor written a page to the cache, whatever the store
  would have answered, and if it returns normally, also after a remote error in the
  middle of a fetch, its last two effects are the upserts of all the tweets and of all the
  users of the result.
\<close>

theorem getTwitterUserIdMentions_noCache:
  assumes nc: "noCache c"
    and run: "getTwitterUserIdMentions fuel c h getCached u remote uid since = Some (out, effs)"
  shows "filter isCacheEffect effs = []
    \<and> (case out of
          Returned r \<Rightarrow> \<exists>pre. effs = pre @ [UpsertTweets (tweets r), UpsertTwitterUsers (users r)]
        | Thrown e \<Rightarrow> True)"
proof -
  from run have fl: "fetchLoop fuel c h u remote uid 0 (fst (seedFromCache c getCached uid since))
      (snd (seedFromCache c getCached uid since)) = Some (out, effs)"
    by (simp add: getTwitterUserIdMentions_fetchLoop)
  from fetchLoop_invariant [OF fl] obtain new where
    e: "effs = snd (seedFromCache c getCached uid since) @ new"
    and n: "noCache c \<longrightarrow> filter isCacheEffect new = []"
    and r: "\<forall>r. out = Returned r \<longrightarrow>
        (\<exists>pre. effs = pre @ [UpsertTweets (tweets r), UpsertTwitterUsers (users r)])"
    by blast
  from e n nc seedFromCache_effects [OF nc, of getCached uid since]
  have a: "filter isCacheEffect effs = []" by simp
  have b: "case out of
          Returned r \<Rightarrow> \<exists>pre. effs = pre @ [UpsertTweets (tweets r), UpsertTwitterUsers (users r)]
        | Thrown e \<Rightarrow> True"
    using r by (cases out) auto
  from a b show ?thesis ..
qed

text \<open>
  A call with \<^verbatim>\<open>noCache\<close> whose only query fails after one page: a partial success, no
  cache effect although the cache holds an entry and the store would reject a write, and
  the flush of the page's includes.
\<close>

theorem getTwitterUserIdMentions_noCache_witness:
  "getTwitterUserIdMentions 1 ctxNoCache knownTwitterErrors cacheOne storeRejects
      remoteWithIncludes 7 (Some 100) =
     Some (Returned \<lparr>mentions = [mention 101], users = [9 \<mapsto> alice], tweets = [80 \<mapsto> tweet80],
                     sinceMentionId = Some 101\<rparr>,
           [UsersIdMentions 7 (Some 100), UpsertTweets [80 \<mapsto> tweet80],
            UpsertTwitterUsers [9 \<mapsto> alice]])
   \<and> filter isCacheEffect
        [UsersIdMentions 7 (Some 100), UpsertTweets [80 \<mapsto> tweet80],
         UpsertTwitterUsers [9 \<mapsto> alice]] = []"
proof -
  have nc: "noCache ctxNoCache" by (simp add: fetch_examples)
  have run: "getTwitterUserIdMentions 1 ctxNoCache knownTwitterErrors cacheOne storeRejects
      remoteWithIncludes 7 (Some 100) =
     Some (Returned \<lparr>mentions = [mention 101], users = [9 \<mapsto> alice], tweets = [80 \<mapsto> tweet80],
                     sinceMentionId = Some 101\<rparr>,
           [UsersIdMentions 7 (Some 100), UpsertTweets [80 \<mapsto> tweet80],
            UpsertTwitterUsers [9 \<mapsto> alice]])"
    by (simp add: fetch_eval fetch_examples remoteWithIncludes_def alice_def tweet80_def)
  from getTwitterUserIdMentions_noCache [OF nc run]
  have "filter isCacheEffect
        [UsersIdMentions 7 (Some 100), UpsertTweets [80 \<mapsto> tweet80],
         UpsertTwitterUsers [9 \<mapsto> alice]] = []" by (rule conjunct1)
  with run show ?thesis ..
qed


section \<open>Properties of the control loop\<close>

lemmas main_examples = batch250_def batch800_def stateInSync_def stateDryRun_def
  ctxDefault_def

lemmas main_eval = mainIteration_def advanceCursor_def cursorWritten_def Let_def idLe_def

text \<open>
  The persisted cursor after one iteration, and its monotonicity along the loop.
\<close>

lemma advanceCursor_persisted:
  "persistedSinceMentionId (advanceCursor batch st) =
     (if cursorWritten (ctx st) batch
      then maxTwitterId (maxTwitterId (ctxSinceMentionId (ctx st)) (batchSinceMentionId batch))
             (persistedSinceMentionId st)
      else persistedSinceMentionId st)"
  by (cases "batchSinceMentionId batch"; cases "ctxSinceMentionId (ctx st)";
      cases "persistedSinceMentionId st")
     (simp_all add: advanceCursor_def cursorWritten_def Let_def)

lemma advanceCursor_flags:
  "dryRun (ctx (advanceCursor batch st)) = dryRun (ctx st)"
  by (simp add: advanceCursor_def Let_def split: option.splits)

lemma mainIteration_persisted:
  "persistedSinceMentionId (fst (mainIteration outcome st)) =
     (case outcome of
        BatchThrew \<Rightarrow> persistedSinceMentionId st
      | BatchReturned batch \<Rightarrow> persistedSinceMentionId (advanceCursor batch st))"
  by (simp add: mainIteration_def Let_def split: BatchOutcome.splits)

lemma mainIteration_monotone:
  "idLe (persistedSinceMentionId st) (persistedSinceMentionId (fst (mainIteration outcome st)))"
  by (cases outcome) (simp_all add: mainIteration_persisted advanceCursor_persisted)

lemma mainLoop_monotone:
  "idLe (persistedSinceMentionId st) (persistedSinceMentionId (mainLoop outcomes st))"
proof (induction outcomes arbitrary: st)
  case Nil
  then show ?case by simp
next
  case (Cons outcome outcomes)
  obtain st' brk where it: "mainIteration outcome st = (st', brk)"
    by (cases "mainIteration outcome st") auto
  from mainIteration_monotone [of st outcome] it
  have step: "idLe (persistedSinceMentionId st) (persistedSinceMentionId st')" by simp
  show ?case
  proof (cases brk)
    case True
    with it step show ?thesis by simp
  next
    case False
    with it have "mainLoop (outcome # outcomes) st = mainLoop outcomes st'" by simp
    with idLe_trans [OF step Cons.IH [of st']] show ?thesis by simp
  qed
qed

lemma advanceCursor_dryRun:
  "dryRun (ctx st) \<Longrightarrow>
   persistedSinceMentionId (advanceCursor batch st) = persistedSinceMentionId st \<and>
   filter isSetSinceMentionId (mainEffects (advanceCursor batch st)) =
     filter isSetSinceMentionId (mainEffects st)"
  by (simp add: advanceCursor_def Let_def split: option.splits)

lemma mainIteration_dryRun:
  assumes "dryRun (ctx st)"
  shows "dryRun (ctx (fst (mainIteration outcome st))) \<and>
   persistedSinceMentionId (fst (mainIteration outcome st)) = persistedSinceMentionId st \<and>
   filter isSetSinceMentionId (mainEffects (fst (mainIteration outcome st))) =
     filter isSetSinceMentionId (mainEffects st)"
  using assms advanceCursor_dryRun [OF assms] advanceCursor_flags
  by (cases outcome) (simp_all add: mainIteration_def Let_def)

lemma mainLoop_dryRun:
  "dryRun (ctx st) \<Longrightarrow>
   persistedSinceMentionId (mainLoop outcomes st) = persistedSinceMentionId st \<and>
   filter isSetSinceMentionId (mainEffects (mainLoop outcomes st)) =
     filter isSetSinceMentionId (mainEffects st)"
proof (induction outcomes arbitrary: st)
  case Nil
  then show ?case by simp
next
  case (Cons outcome outcomes)
  obtain st' brk where it: "mainIteration outcome st = (st', brk)"
    by (cases "mainIteration outcome st") auto
  from mainIteration_dryRun [OF Cons.prems, of outcome] it
  have step: "dryRun (ctx st')"
    "persistedSinceMentionId st' = persistedSinceMentionId st"
    "filter isSetSinceMentionId (mainEffects st') = filter isSetSinceMentionId (mainEffects st)"
    by simp_all
  show ?case
  proof (cases brk)
    case True
    with it step show ?thesis by simp
  next
    case False
    with it have "mainLoop (outcome # outcomes) st = mainLoop outcomes st'" by simp
    with Cons.IH [OF step(1)] step show ?thesis by simp
  qed
qed

lemma maxTwitterId_commute: "maxTwitterId a b = maxTwitterId b a"
  by (cases a; cases b) (simp_all add: max.commute)

lemma three_way_max:
  "idLe a b \<or> idLe a p \<Longrightarrow> maxTwitterId (maxTwitterId a b) p = maxTwitterId p b"
  by (cases a; cases b; cases p) (auto simp: idLe_def max_def)

lemma advanceCursor_in_sync:
  "cursorWritten (ctx st) batch \<Longrightarrow>
   ctxSinceMentionId (ctx (advanceCursor batch st)) =
     persistedSinceMentionId (advanceCursor batch st)"
  by (cases "batchSinceMentionId batch"; cases "ctxSinceMentionId (ctx st)";
      cases "persistedSinceMentionId st")
     (simp_all add: advanceCursor_def cursorWritten_def Let_def)

text \<open>
  C1. Take an iteration whose batch advanced the cursor: the \<^verbatim>\<open>sinceMentionId\<close> of the
  batch is at least the cursor in memory, with which the batch was fetched (or the
  cursor in memory is at most the persisted one, as it is after every write). When the
  iteration writes the cursor, the value written is the maximum of the persisted value,
  read just before the write, and the \<^verbatim>\<open>sinceMentionId\<close> of the batch, and after the
  write the cursor in memory equals the persisted one. Whatever the batches, the
  persisted cursor after an iteration, and after any number of iterations, is at least
  its value before.
\<close>

theorem cursor_never_regresses:
  assumes "batchAdvanced st batch \<or> cursorInSync st"
  shows "persistedSinceMentionId (fst (mainIteration (BatchReturned batch) st)) =
     (if cursorWritten (ctx st) batch
      then maxTwitterId (persistedSinceMentionId st) (batchSinceMentionId batch)
      else persistedSinceMentionId st)
   \<and> (if cursorWritten (ctx st) batch
       then cursorInSync (fst (mainIteration (BatchReturned batch) st))
       else True)
   \<and> idLe (persistedSinceMentionId st) (persistedSinceMentionId (fst (mainIteration outcome st)))
   \<and> idLe (persistedSinceMentionId st) (persistedSinceMentionId (mainLoop outcomes st))"
proof -
  from assms have h: "idLe (ctxSinceMentionId (ctx st)) (batchSinceMentionId batch)
      \<or> idLe (ctxSinceMentionId (ctx st)) (persistedSinceMentionId st)"
    by (simp add: batchAdvanced_def cursorInSync_def)
  have a: "persistedSinceMentionId (fst (mainIteration (BatchReturned batch) st)) =
     (if cursorWritten (ctx st) batch
      then maxTwitterId (persistedSinceMentionId st) (batchSinceMentionId batch)
      else persistedSinceMentionId st)"
    using mainIteration_persisted [of "BatchReturned batch" st]
      advanceCursor_persisted [of batch st] three_way_max [OF h]
    by simp
  have st1: "ctx (fst (mainIteration (BatchReturned batch) st)) = ctx (advanceCursor batch st)"
    by (simp add: mainIteration_def Let_def)
  have b: "if cursorWritten (ctx st) batch
       then cursorInSync (fst (mainIteration (BatchReturned batch) st))
       else True"
    using advanceCursor_in_sync [of st batch] mainIteration_persisted [of "BatchReturned batch" st]
    by (simp add: cursorInSync_def st1)
  from a b mainIteration_monotone [of st outcome] mainLoop_monotone [of st outcomes]
  show ?thesis by simp
qed

text \<open>
  From a state in which memory and store agree on 100, a batch that advanced to 250
  writes 250; three iterations, the second of which fails, leave 800 in the store.
\<close>

theorem cursor_never_regresses_witness:
  "persistedSinceMentionId (fst (mainIteration (BatchReturned batch250) stateInSync)) = Some 250
   \<and> mainEffects (fst (mainIteration (BatchReturned batch250) stateInSync)) =
       [GetSinceMentionId, SetSinceMentionId 250, Delay 30000]
   \<and> persistedSinceMentionId (mainLoop [BatchReturned batch250, BatchThrew, BatchReturned batch800]
        stateInSync) = Some 800"
proof -
  have adv: "batchAdvanced stateInSync batch250 \<or> cursorInSync stateInSync"
    by (simp add: batchAdvanced_def cursorInSync_def main_eval main_examples)
  note t = cursor_never_regresses [OF adv, of BatchThrew
      "[BatchReturned batch250, BatchThrew, BatchReturned batch800]"]
  have w: "cursorWritten (ctx stateInSync) batch250" by (simp add: main_eval main_examples)
  from t [unfolded if_P [OF w]]
  have "persistedSinceMentionId (fst (mainIteration (BatchReturned batch250) stateInSync)) =
      maxTwitterId (persistedSinceMentionId stateInSync) (batchSinceMentionId batch250)"
    by (rule conjunct1)
  then have a: "persistedSinceMentionId (fst (mainIteration (BatchReturned batch250) stateInSync)) =
      Some 250" by (simp add: main_examples)
  have b: "mainEffects (fst (mainIteration (BatchReturned batch250) stateInSync)) =
       [GetSinceMentionId, SetSinceMentionId 250, Delay 30000]"
    "persistedSinceMentionId (mainLoop [BatchReturned batch250, BatchThrew,
      BatchReturned batch800] stateInSync) = Some 800"
    by (simp_all add: main_eval main_examples)
  from a b show ?thesis by simp
qed

text \<open>
  C9. When \<^verbatim>\<open>dryRun\<close> is set, no iteration of the control loop calls
  \<^verbatim>\<open>db.setSinceMentionId\<close>, and the persisted cursor keeps its value, whatever the batches.
\<close>

theorem dryRun_never_persists:
  assumes "dryRun (ctx st)"
  shows "persistedSinceMentionId (mainLoop outcomes st) = persistedSinceMentionId st
    \<and> filter isSetSinceMentionId (mainEffects (mainLoop outcomes st)) =
        filter isSetSinceMentionId (mainEffects st)"
  using mainLoop_dryRun [OF assms] .

text \<open>
  A dry run whose batch advances the cursor in memory from 100 to 250: the store still
  holds 100, and the only access to it is the read.
\<close>

theorem dryRun_never_persists_witness:
  "persistedSinceMentionId (mainLoop [BatchReturned batch250] stateDryRun) = Some 100
   \<and> ctxSinceMentionId (ctx (mainLoop [BatchReturned batch250] stateDryRun)) = Some 250
   \<and> mainEffects (mainLoop [BatchReturned batch250] stateDryRun) =
       [GetSinceMentionId, Delay 30000]"
proof -
  have d: "dryRun (ctx stateDryRun)" by (simp add: main_examples)
  from dryRun_never_persists [OF d, of "[BatchReturned batch250]"]
  have "persistedSinceMentionId (mainLoop [BatchReturned batch250] stateDryRun) =
      persistedSinceMentionId stateDryRun" by (rule conjunct1)
  then have a: "persistedSinceMentionId (mainLoop [BatchReturned batch250] stateDryRun) = Some 100"
    by (simp add: main_examples)
  have b: "ctxSinceMentionId (ctx (mainLoop [BatchReturned batch250] stateDryRun)) = Some 250"
    "mainEffects (mainLoop [BatchReturned batch250] stateDryRun) =
       [GetSinceMentionId, Delay 30000]"
    by (simp_all add: main_eval main_examples)
  from a b show ?thesis by simp
qed

end
